theory Spec2Isabelle
  imports Complex_Main "HOL-Library.Word" "HOL-Library.AList"
begin

section \<open>Strings of the host language\<close>

text \<open>
  A TypeScript string is a sequence of UTF-16 code units: \<open>length\<close>, \<open>substring\<close>,
  \<open>startsWith\<close>, \<open>trim\<close> and the regular expressions of \<open>lib.ts\<close> (none has the
  \<open>u\<close> flag) all count and compare code units. A string is therefore a list of 16-bit
  words. \<open>js\<close> turns an ASCII literal of the source into such a list.
\<close>

type_synonym codeunit = "16 word"
type_synonym jsstring = "codeunit list"

definition js :: "string \<Rightarrow> jsstring" where
  "js s = map of_char s"

text \<open>\<open>s.startsWith(p)\<close>.\<close>

definition startsWith :: "jsstring \<Rightarrow> jsstring \<Rightarrow> bool" where
  "startsWith s p = (take (length p) s = p)"

text \<open>
  \<open>s.replace(/literal/g, () => rep)\<close>: the string is scanned from the left; at each
  position where the literal \<open>pat\<close> matches, \<open>rep\<close> is emitted and the scan goes on after
  the match (matches do not overlap); elsewhere the code unit is copied. The replacer is
  a function, so \<open>rep\<close> is emitted as it is. The two patterns of the source are non-empty
  literals; for an empty \<open>pat\<close> the model copies the string.
\<close>

function replace_all :: "jsstring \<Rightarrow> jsstring \<Rightarrow> jsstring \<Rightarrow> jsstring" where
  "replace_all pat rep s =
     (if s = [] then []
      else if pat \<noteq> [] \<and> startsWith s pat
        then rep @ replace_all pat rep (drop (length pat) s)
      else hd s # replace_all pat rep (tl s))"
  by pat_completeness auto
termination
  by (relation "measure (\<lambda>(pat, rep, s). length s)") auto

declare replace_all.simps [simp del]

text \<open>
  The white space and line terminator code units that \<open>String.prototype.trim\<close> removes
  (ECMAScript: TAB, VT, FF, SP, NBSP, ZWNBSP, the space separators, LF, CR, LS, PS).
\<close>

definition is_space :: "codeunit \<Rightarrow> bool" where
  "is_space c \<longleftrightarrow>
     c = 0x0009 \<or> c = 0x000A \<or> c = 0x000B \<or> c = 0x000C \<or> c = 0x000D \<or> c = 0x0020 \<or>
     c = 0x00A0 \<or> c = 0x1680 \<or> (0x2000 \<le> c \<and> c \<le> 0x200A) \<or> c = 0x2028 \<or>
     c = 0x2029 \<or> c = 0x202F \<or> c = 0x205F \<or> c = 0x3000 \<or> c = 0xFEFF"

definition trim :: "jsstring \<Rightarrow> jsstring" where
  "trim s = rev (dropWhile is_space (rev (dropWhile is_space s)))"

text \<open>
  \<open>s.substring(0, n)\<close> for a number \<open>n\<close> that is an integer: a negative end is taken
  as 0, an end beyond the string as its length.
\<close>

definition substring0 :: "jsstring \<Rightarrow> int \<Rightarrow> jsstring" where
  "substring0 s n = take (nat n) s"


section \<open>Settings and the provider configuration (lib.ts)\<close>

record ExplainSelectionWithAiPluginSettings =
  dropdownValue :: jsstring
  baseURL :: jsstring
  endpoint :: jsstring
  apiKey :: jsstring
  openRouterModel :: jsstring
  openRouterApiKey :: jsstring
  openRouterReferer :: jsstring
  openRouterTitle :: jsstring
  systemPrompt :: jsstring
  userPromptTemplate :: jsstring

definition DEFAULT_SETTINGS :: ExplainSelectionWithAiPluginSettings where
  \<open>DEFAULT_SETTINGS =
     \<lparr> dropdownValue = js ''openai'',
       baseURL = js ''https://api.openai.com/v1/'',
       endpoint = js ''gpt-4o-mini'',
       apiKey = js '''',
       openRouterModel = js ''anthropic/claude-sonnet-4'',
       openRouterApiKey = js '''',
       openRouterReferer = js '''',
       openRouterTitle = js ''Obsidian Explain Selection'',
       systemPrompt = js ''You are a helpful assistant.'',
       userPromptTemplate =
         js ''Explain "{{selection}}" in the context of "{{context}}"'' \<rparr>\<close>

text \<open>
  The value \<open>getProviderConfig\<close> returns. \<open>defaultHeaders\<close> is an object filled by
  assignment (an association list in insertion order), or \<open>undefined\<close> (\<open>None\<close>).
\<close>

record ProviderConfig =
  cfg_baseURL :: jsstring
  cfg_apiKey :: jsstring
  cfg_model :: jsstring
  cfg_defaultHeaders :: "(jsstring \<times> jsstring) list option"

text \<open>
  \<open>if (settings.openRouterReferer)\<close> tests a string: it is true for every string but
  the empty one. \<open>Object.keys(h).length > 0\<close> is the test that the object has a key.
\<close>

definition getProviderConfig :: "ExplainSelectionWithAiPluginSettings \<Rightarrow> ProviderConfig" where
  "getProviderConfig settings =
     (let isOpenRouter = (dropdownValue settings = js ''openrouter'');
          baseURL' = (if isOpenRouter then js ''https://openrouter.ai/api/v1''
                      else baseURL settings);
          apiKey' = (if isOpenRouter then openRouterApiKey settings else apiKey settings);
          model' = (if isOpenRouter then openRouterModel settings else endpoint settings);
          h0 = [];
          h1 = (if isOpenRouter \<and> openRouterReferer settings \<noteq> []
                then AList.update (js ''HTTP-Referer'') (openRouterReferer settings) h0
                else h0);
          h2 = (if isOpenRouter \<and> openRouterTitle settings \<noteq> []
                then AList.update (js ''X-Title'') (openRouterTitle settings) h1
                else h1)
      in \<lparr> cfg_baseURL = baseURL',
           cfg_apiKey = (if apiKey' = js '''' then js ''-'' else apiKey'),
           cfg_model = model',
           cfg_defaultHeaders = (if length (map fst h2) > 0 then Some h2 else None) \<rparr>)"


section \<open>The prompt builder (lib.ts)\<close>

text \<open>
  \<open>buildPrompt\<close> chains two replacements: the second one runs over the result of the
  first.
\<close>

definition buildPrompt :: "jsstring \<Rightarrow> jsstring \<Rightarrow> jsstring \<Rightarrow> jsstring" where
  "buildPrompt template selection context =
     replace_all (js ''{{context}}'') context
       (replace_all (js ''{{selection}}'') selection template)"

text \<open>
  The substitution in a single pass, for comparison: the template is scanned once from
  the left, a placeholder found in the template is replaced, and what was inserted is not
  read again.
\<close>

function single_pass :: "jsstring \<Rightarrow> jsstring \<Rightarrow> jsstring \<Rightarrow> jsstring" where
  "single_pass t s c =
     (if t = [] then []
      else if startsWith t (js ''{{selection}}'')
        then s @ single_pass (drop (length (js ''{{selection}}'')) t) s c
      else if startsWith t (js ''{{context}}'')
        then c @ single_pass (drop (length (js ''{{context}}'')) t) s c
      else hd t # single_pass (tl t) s c)"
  by pat_completeness auto
termination
  by (relation "measure (\<lambda>(t, s, c). length t)") (auto simp: js_def)

declare single_pass.simps [simp del]

text \<open>The local constant \<open>truncatedSelection\<close> of \<open>buildMenuLabel\<close>.\<close>

definition truncatedSelection :: "jsstring \<Rightarrow> jsstring" where
  "truncatedSelection selection =
     (if int (length selection) > 24 then substring0 selection 24 @ js ''...''
      else selection)"

text \<open>\<open>maxLength\<close> is a number (50 when the caller gives none); here an integer.\<close>

definition buildMenuLabel :: "jsstring \<Rightarrow> jsstring \<Rightarrow> int \<Rightarrow> jsstring" where
  "buildMenuLabel template selection maxLength =
     (let label = replace_all (js ''{{context}}'') (js ''...'')
                    (replace_all (js ''{{selection}}'') (truncatedSelection selection) template)
      in if int (length label) > maxLength
         then substring0 label (maxLength - 3) @ js ''...''
         else label)"

text \<open>\<open>s.endsWith(p)\<close>, used to state where a string ends.\<close>

definition endsWith :: "jsstring \<Rightarrow> jsstring \<Rightarrow> bool" where
  "endsWith s p = (length p \<le> length s \<and> drop (length s - length p) s = p)"


section \<open>File names (lib.ts)\<close>

text \<open>
  The character class of \<open>sanitizeFileName\<close>, in the order of the source:
  \<open>*\<close> (2A), the double quote (22), the backslash (5C), \<open>/\<close> (2F), \<open><\<close> (3C),
  \<open>>\<close> (3E), \<open>:\<close> (3A), \<open>|\<close> (7C), \<open>?\<close> (3F).
\<close>

definition forbidden :: "codeunit \<Rightarrow> bool" where
  "forbidden c \<longleftrightarrow> c \<in> set [0x2A, 0x22, 0x5C, 0x2F, 0x3C, 0x3E, 0x3A, 0x7C, 0x3F]"

text \<open>\<open>x || "AI Explanation"\<close> takes the second operand exactly when \<open>x\<close> is empty.\<close>

definition sanitizeFileName :: "jsstring \<Rightarrow> jsstring" where
  "sanitizeFileName name =
     (let r = trim (substring0 (filter (\<lambda>c. \<not> forbidden c) name) 100)
      in if r = [] then js ''AI Explanation'' else r)"


section \<open>Untyped values\<close>

text \<open>
  The parsers take a parameter of type \<open>any\<close>: what \<open>response.json\<close> holds, or
  \<open>undefined\<close>. A number is a rational (every double is one); an object is the list of its
  properties, the first binding of a key being the property.
\<close>

datatype jsval =
    JUndefined
  | JNull
  | JBool bool
  | JNum rat
  | JStr jsstring
  | JArr "jsval list"
  | JObj "(jsstring \<times> jsval) list"

datatype error =
    TypeError
  | Error jsstring
  | RequestError

definition bind_err :: "error + 'a \<Rightarrow> ('a \<Rightarrow> error + 'b) \<Rightarrow> error + 'b" where
  "bind_err r f = (case r of Inl e \<Rightarrow> Inl e | Inr x \<Rightarrow> f x)"

fun map_err :: "('a \<Rightarrow> error + 'b) \<Rightarrow> 'a list \<Rightarrow> error + 'b list" where
  "map_err f [] = Inr []"
| "map_err f (x # xs) =
     bind_err (f x) (\<lambda>y. bind_err (map_err f xs) (\<lambda>ys. Inr (y # ys)))"

text \<open>The test \<open>if (v)\<close>, \<open>v && \<dots>\<close>, \<open>v || \<dots>\<close>.\<close>

fun truthy :: "jsval \<Rightarrow> bool" where
  "truthy JUndefined = False"
| "truthy JNull = False"
| "truthy (JBool b) = b"
| "truthy (JNum n) = (n \<noteq> 0)"
| "truthy (JStr s) = (s \<noteq> [])"
| "truthy (JArr xs) = True"
| "truthy (JObj kvs) = True"

text \<open>
  \<open>v.k\<close> for a value that is neither \<open>undefined\<close> nor \<open>null\<close> and for the keys the
  parsers read (\<open>data\<close>, \<open>models\<close>, \<open>id\<close>, \<open>name\<close>, \<open>pricing\<close>, \<open>prompt\<close>,
  \<open>completion\<close>): none of them is a built-in property of a string, a number, a boolean
  or an array, so only an object can have one. \<open>get_prop\<close> is \<open>v.k\<close> for any value:
  reading a property of \<open>undefined\<close> or \<open>null\<close> raises. \<open>opt_prop\<close> is \<open>v?.k\<close>.
\<close>

fun read_prop :: "jsval \<Rightarrow> jsstring \<Rightarrow> jsval" where
  "read_prop (JObj kvs) k = (case map_of kvs k of None \<Rightarrow> JUndefined | Some v \<Rightarrow> v)"
| "read_prop v k = JUndefined"

definition nullish :: "jsval \<Rightarrow> bool" where
  "nullish v \<longleftrightarrow> v = JUndefined \<or> v = JNull"

definition get_prop :: "jsval \<Rightarrow> jsstring \<Rightarrow> error + jsval" where
  "get_prop v k = (if nullish v then Inl TypeError else Inr (read_prop v k))"

definition opt_prop :: "jsval \<Rightarrow> jsstring \<Rightarrow> jsval" where
  "opt_prop v k = (if nullish v then JUndefined else read_prop v k)"

text \<open>
  \<open>v.map(f)\<close>: only an array has \<open>map\<close>; on any other value the call raises (a property
  \<open>map\<close> of a parsed object is never a function).
\<close>

definition array_map :: "(jsval \<Rightarrow> error + 'b) \<Rightarrow> jsval \<Rightarrow> error + 'b list" where
  "array_map f v = (case v of JArr xs \<Rightarrow> map_err f xs | _ \<Rightarrow> Inl TypeError)"


section \<open>The model catalogue (lib.ts)\<close>

text \<open>
  \<open>ModelInfo\<close>. The interface declares strings, but the parsers copy what the response
  holds without a check, so the fields are untyped values; an absent field reads as
  \<open>undefined\<close>, an absent \<open>pricing\<close> is \<open>None\<close>.
\<close>

record ModelInfo =
  mi_id :: jsval
  mi_name :: jsval
  mi_pricing :: "(jsval \<times> jsval) option"

text \<open>The argument type \<open>{ id: string }\<close> of \<open>filterOpenAIModels\<close>.\<close>

record OpenAIModel =
  model_id :: jsstring

text \<open>
  What the host supplies. \<open>localeCompare\<close> is \<open>String.prototype.localeCompare\<close> on two
  strings (the collation of the host's locale; negative, zero or positive). \<open>ToString\<close> is
  the conversion \<open>localeCompare\<close> applies to an argument that is not a string.
  \<open>sort_other\<close> is the host's \<open>Array.prototype.sort\<close>, with the comparator of the
  parsers, on an array for which the language fixes no result (see \<open>array_sort\<close>).
\<close>

record host =
  localeCompare :: "jsstring \<Rightarrow> jsstring \<Rightarrow> int"
  ToString :: "jsval \<Rightarrow> error + jsstring"
  sort_other :: "ModelInfo list \<Rightarrow> error + ModelInfo list"

text \<open>
  The comparator \<open>(a, b) => a.id.localeCompare(b.id)\<close>: the receiver \<open>a.id\<close> has the
  method only when it is a string.
\<close>

definition compare_ids :: "host \<Rightarrow> ModelInfo \<Rightarrow> ModelInfo \<Rightarrow> error + int" where
  "compare_ids h a b =
     (case mi_id a of
        JStr s \<Rightarrow>
          (case mi_id b of
             JStr t \<Rightarrow> Inr (localeCompare h s t)
           | v \<Rightarrow> bind_err (ToString h v) (\<lambda>t. Inr (localeCompare h s t)))
      | _ \<Rightarrow> Inl TypeError)"

text \<open>
  \<open>xs.sort(cmp)\<close>. An array of fewer than two elements is returned without a call of
  the comparator. When the comparator returns on every pair of elements and is consistent
  on them (\<open>a\<close> is before \<open>b\<close> exactly when \<open>b\<close> is after \<open>a\<close>, and ``not after'' is
  transitive), the result is the stable sorted permutation, which is unique: insertion
  from the right computes it. On any other array (for the comparator above: an array
  with an id that is not a string, whose comparison with itself raises) the language
  leaves the sequence of comparator calls, and with it the outcome, to the host:
  \<open>other\<close> is what the host's sort does there.
\<close>

fun insert_by :: "('a \<Rightarrow> 'a \<Rightarrow> error + int) \<Rightarrow> 'a \<Rightarrow> 'a list \<Rightarrow> error + 'a list" where
  "insert_by cmp x [] = Inr [x]"
| "insert_by cmp x (y # ys) =
     bind_err (cmp x y) (\<lambda>c.
       if c \<le> 0 then Inr (x # y # ys)
       else bind_err (insert_by cmp x ys) (\<lambda>zs. Inr (y # zs)))"

fun insertion_sort :: "('a \<Rightarrow> 'a \<Rightarrow> error + int) \<Rightarrow> 'a list \<Rightarrow> error + 'a list" where
  "insertion_sort cmp [] = Inr []"
| "insertion_sort cmp (x # xs) = bind_err (insertion_sort cmp xs) (insert_by cmp x)"

definition returns :: "('a \<Rightarrow> 'a \<Rightarrow> error + int) \<Rightarrow> 'a \<Rightarrow> 'a \<Rightarrow> bool" where
  "returns cmp x y = (case cmp x y of Inr c \<Rightarrow> True | Inl e \<Rightarrow> False)"

definition before :: "('a \<Rightarrow> 'a \<Rightarrow> error + int) \<Rightarrow> 'a \<Rightarrow> 'a \<Rightarrow> bool" where
  "before cmp x y = (case cmp x y of Inr c \<Rightarrow> c < 0 | Inl e \<Rightarrow> False)"

definition after :: "('a \<Rightarrow> 'a \<Rightarrow> error + int) \<Rightarrow> 'a \<Rightarrow> 'a \<Rightarrow> bool" where
  "after cmp x y = (case cmp x y of Inr c \<Rightarrow> 0 < c | Inl e \<Rightarrow> False)"

definition not_after :: "('a \<Rightarrow> 'a \<Rightarrow> error + int) \<Rightarrow> 'a \<Rightarrow> 'a \<Rightarrow> bool" where
  "not_after cmp x y = (case cmp x y of Inr c \<Rightarrow> c \<le> 0 | Inl e \<Rightarrow> False)"

definition consistent_on :: "('a \<Rightarrow> 'a \<Rightarrow> error + int) \<Rightarrow> 'a list \<Rightarrow> bool" where
  "consistent_on cmp xs \<longleftrightarrow>
     list_all (\<lambda>x. list_all (\<lambda>y.
       returns cmp x y \<and> (before cmp x y = after cmp y x)) xs) xs \<and>
     list_all (\<lambda>x. list_all (\<lambda>y. list_all (\<lambda>z.
       not_after cmp x y \<and> not_after cmp y z \<longrightarrow> not_after cmp x z) xs) xs) xs"

definition array_sort ::
  "('a list \<Rightarrow> error + 'a list) \<Rightarrow> ('a \<Rightarrow> 'a \<Rightarrow> error + int) \<Rightarrow> 'a list \<Rightarrow> error + 'a list" where
  "array_sort other cmp xs =
     (if length xs < 2 then Inr xs
      else if consistent_on cmp xs then insertion_sort cmp xs
      else other xs)"

definition chatPrefixes :: "jsstring list" where
  "chatPrefixes = [js ''gpt-'', js ''o1'', js ''o3'', js ''o4'', js ''chatgpt-'']"

definition excludePrefixes :: "jsstring list" where
  "excludePrefixes =
     [js ''dall-e'', js ''tts-'', js ''whisper'', js ''embedding'', js ''text-embedding'',
      js ''babbage'', js ''davinci'']"

definition matchesChat :: "jsstring \<Rightarrow> bool" where
  "matchesChat id' = list_ex (\<lambda>p. startsWith id' p) chatPrefixes"

definition excluded :: "jsstring \<Rightarrow> bool" where
  "excluded id' = list_ex (\<lambda>p. startsWith id' p) excludePrefixes"

definition filterOpenAIModels :: "host \<Rightarrow> OpenAIModel list \<Rightarrow> error + ModelInfo list" where
  "filterOpenAIModels h models =
     (let filtered =
        map (\<lambda>m. \<lparr> mi_id = JStr (model_id m), mi_name = JUndefined, mi_pricing = None \<rparr>)
          (filter (\<lambda>m. matchesChat (model_id m) \<and> \<not> excluded (model_id m)) models)
      in array_sort (sort_other h) (compare_ids h) filtered)"

text \<open>\<open>(data && data.f) || []\<close>: a truthy \<open>data\<close> is neither \<open>undefined\<close> nor \<open>null\<close>.\<close>

definition top_field :: "jsval \<Rightarrow> jsstring \<Rightarrow> jsval" where
  "top_field data f =
     (let x = (if truthy data then read_prop data f else data)
      in if truthy x then x else JArr [])"

text \<open>The callback of \<open>parseOpenRouterModels\<close>; \<open>m.id\<close> is read first.\<close>

definition openRouterEntry :: "jsval \<Rightarrow> error + ModelInfo" where
  "openRouterEntry m =
     bind_err (get_prop m (js ''id'')) (\<lambda>id'.
       let name = read_prop m (js ''name'');
           pricing = read_prop m (js ''pricing'')
       in Inr \<lparr> mi_id = id',
                mi_name = (if truthy name then name else JUndefined),
                mi_pricing =
                  (if truthy (opt_prop pricing (js ''prompt'')) \<and>
                      truthy (opt_prop pricing (js ''completion''))
                   then Some (read_prop pricing (js ''prompt''), read_prop pricing (js ''completion''))
                   else None) \<rparr>)"

definition parseOpenRouterModels :: "host \<Rightarrow> jsval \<Rightarrow> error + ModelInfo list" where
  "parseOpenRouterModels h data =
     bind_err (array_map openRouterEntry (top_field data (js ''data'')))
       (array_sort (sort_other h) (compare_ids h))"

definition ollamaEntry :: "jsval \<Rightarrow> error + ModelInfo" where
  "ollamaEntry m =
     bind_err (get_prop m (js ''name'')) (\<lambda>n.
       Inr \<lparr> mi_id = n, mi_name = JUndefined, mi_pricing = None \<rparr>)"

definition parseOllamaModels :: "host \<Rightarrow> jsval \<Rightarrow> error + ModelInfo list" where
  "parseOllamaModels h data =
     bind_err (array_map ollamaEntry (top_field data (js ''models'')))
       (array_sort (sort_other h) (compare_ids h))"

definition deriveOllamaBaseUrl :: "jsstring \<Rightarrow> jsstring" where
  "deriveOllamaBaseUrl url =
     (if url = [] then js ''http://localhost:11434''
      else if endsWith url (js ''/v1/'') then take (length url - 4) url
      else if endsWith url (js ''/v1'') then take (length url - 3) url
      else url)"

text \<open>
  A host for closed instances: the order of the code units as collation, a conversion
  that covers strings, \<open>undefined\<close>, \<open>null\<close> and booleans, and a sort that raises where
  the language fixes no result.
\<close>

fun codeunit_compare :: "jsstring \<Rightarrow> jsstring \<Rightarrow> int" where
  "codeunit_compare [] [] = 0"
| "codeunit_compare [] (y # ys) = - 1"
| "codeunit_compare (x # xs) [] = 1"
| "codeunit_compare (x # xs) (y # ys) =
     (if x < y then - 1 else if y < x then 1 else codeunit_compare xs ys)"

fun plain_ToString :: "jsval \<Rightarrow> error + jsstring" where
  "plain_ToString (JStr s) = Inr s"
| "plain_ToString JUndefined = Inr (js ''undefined'')"
| "plain_ToString JNull = Inr (js ''null'')"
| "plain_ToString (JBool b) = Inr (if b then js ''true'' else js ''false'')"
| "plain_ToString v = Inl TypeError"

definition raising_sort :: "ModelInfo list \<Rightarrow> error + ModelInfo list" where
  "raising_sort ms = Inl TypeError"

definition codeunit_host :: host where
  "codeunit_host =
     \<lparr> localeCompare = codeunit_compare, ToString = plain_ToString,
       sort_other = raising_sort \<rparr>"


section \<open>Orders and sorting, for the statements\<close>

text \<open>
  A consistent comparator, as \<open>Array.prototype.sort\<close> expects one: \<open>a\<close> is before \<open>b\<close>
  exactly when \<open>b\<close> is after \<open>a\<close>, and ``not after'' is transitive. The host's
  \<open>localeCompare\<close> is one. \<open>id_le\<close> is ``not after, by id'' on two models whose ids are
  strings.
\<close>

definition consistent :: "(jsstring \<Rightarrow> jsstring \<Rightarrow> int) \<Rightarrow> bool" where
  "consistent lc \<longleftrightarrow>
     (\<forall>a b. (lc a b < 0) = (0 < lc b a)) \<and>
     (\<forall>a b c. lc a b \<le> 0 \<and> lc b c \<le> 0 \<longrightarrow> lc a c \<le> 0)"

definition id_le :: "host \<Rightarrow> ModelInfo \<Rightarrow> ModelInfo \<Rightarrow> bool" where
  "id_le h a b =
     (case (mi_id a, mi_id b) of
        (JStr s, JStr t) \<Rightarrow> localeCompare h s t \<le> 0
      | _ \<Rightarrow> False)"

text \<open>
  The insertion sort of \<open>array_sort\<close> on a list of strings, and the object
  \<open>{ id: s }\<close>: on such objects the comparator always returns, and under a consistent
  \<open>localeCompare\<close> \<open>array_sort\<close> is this sort of the ids.
\<close>

fun insert_str :: "(jsstring \<Rightarrow> jsstring \<Rightarrow> int) \<Rightarrow> jsstring \<Rightarrow> jsstring list \<Rightarrow> jsstring list" where
  "insert_str lc x [] = [x]"
| "insert_str lc x (y # ys) = (if lc x y \<le> 0 then x # y # ys else y # insert_str lc x ys)"

fun sort_str :: "(jsstring \<Rightarrow> jsstring \<Rightarrow> int) \<Rightarrow> jsstring list \<Rightarrow> jsstring list" where
  "sort_str lc [] = []"
| "sort_str lc (x # xs) = insert_str lc x (sort_str lc xs)"

definition entry :: "jsstring \<Rightarrow> ModelInfo" where
  "entry s = \<lparr> mi_id = JStr s, mi_name = JUndefined, mi_pricing = None \<rparr>"


section \<open>The model cache (main.ts)\<close>

text \<open>
  \<open>modelCache\<close> is a module-level object, keyed by the provider name; a stored list is
  an array, which is truthy even when empty, so \<open>if (modelCache[provider])\<close> is the test
  that the provider has an entry (properties inherited from \<open>Object.prototype\<close> are not
  modelled). A request is the argument of \<open>requestUrl\<close>; the method is always GET.
\<close>

type_synonym cache = "jsstring \<rightharpoonup> ModelInfo list"

record request =
  url :: jsstring
  headers :: "(jsstring \<times> jsstring) list"

text \<open>
  \<open>filterOpenAIModels\<close> is called with \<open>response.json.data || []\<close>, which nothing
  checks: \<open>models.filter\<close> needs an array, and the callback reads \<open>m.id\<close> and calls
  \<open>id.startsWith\<close> on every element, which raises unless \<open>m.id\<close> is a string.
\<close>

definition typed_models :: "jsval \<Rightarrow> error + OpenAIModel list" where
  "typed_models v =
     array_map (\<lambda>m. bind_err (get_prop m (js ''id'')) (\<lambda>i.
        case i of JStr s \<Rightarrow> Inr \<lparr> model_id = s \<rparr> | _ \<Rightarrow> Inl TypeError)) v"

text \<open>
  \<open>fetchModelsForProvider\<close> is asynchronous, with one suspension point, the
  \<open>await requestUrl(\<dots>)\<close> of a branch. \<open>fetch_begin\<close> is the function up to that point:
  it returns or throws at once (\<open>Done\<close>), or sends a request (\<open>Await\<close>). \<open>fetch_resume\<close>
  is the rest of the branch, run on the answer to the request: the parsed body, or the
  error \<open>requestUrl\<close> rejects with.
\<close>

datatype fetch_step = Done "error + ModelInfo list" | Await request

definition fetch_begin ::
  "cache \<Rightarrow> jsstring \<Rightarrow> jsstring option \<Rightarrow> jsstring option \<Rightarrow> fetch_step" where
  "fetch_begin modelCache provider apiKey' baseURL' =
     (case modelCache provider of
        Some ms \<Rightarrow> Done (Inr ms)
      | None \<Rightarrow>
          if provider = js ''openrouter'' then
            Await \<lparr> url = js ''https://openrouter.ai/api/v1/models'', headers = [] \<rparr>
          else if provider = js ''openai'' then
            (case apiKey' of
               None \<Rightarrow> Done (Inl (Error (js ''OpenAI API key is required to fetch models.'')))
             | Some k \<Rightarrow>
                 if k = [] then
                   Done (Inl (Error (js ''OpenAI API key is required to fetch models.'')))
                 else
                   Await \<lparr> url = js ''https://api.openai.com/v1/models'',
                           headers = [(js ''Authorization'', js ''Bearer '' @ k)] \<rparr>)
          else if provider = js ''ollama'' then
            Await \<lparr> url = deriveOllamaBaseUrl (case baseURL' of None \<Rightarrow> [] | Some b \<Rightarrow> b)
                          @ js ''/api/tags'',
                    headers = [] \<rparr>
          else Done (Inl (Error (js ''No model fetching for provider: '' @ provider))))"

definition fetch_resume :: "host \<Rightarrow> jsstring \<Rightarrow> error + jsval \<Rightarrow> error + ModelInfo list" where
  "fetch_resume h provider response =
     bind_err response (\<lambda>json.
       if provider = js ''openrouter'' then parseOpenRouterModels h json
       else if provider = js ''openai'' then
         bind_err (get_prop json (js ''data'')) (\<lambda>d.
           bind_err (typed_models (if truthy d then d else JArr [])) (filterOpenAIModels h))
       else if provider = js ''ollama'' then parseOllamaModels h json
       else Inl (Error (js ''No model fetching for provider: '' @ provider)))"

text \<open>
  The whole call against a network that answers each request: the value the promise
  settles with, and the requests sent.
\<close>

definition fetchModelsForProvider ::
  "host \<Rightarrow> (request \<Rightarrow> error + jsval) \<Rightarrow> cache \<Rightarrow> jsstring \<Rightarrow> jsstring option \<Rightarrow>
     jsstring option \<Rightarrow> (error + ModelInfo list) \<times> request list" where
  "fetchModelsForProvider h net modelCache provider apiKey' baseURL' =
     (case fetch_begin modelCache provider apiKey' baseURL' of
        Done r \<Rightarrow> (r, [])
      | Await req \<Rightarrow> (fetch_resume h provider (net req), [req]))"

text \<open>A network that answers no request, for closed instances.\<close>

definition no_network :: "request \<Rightarrow> error + jsval" where
  "no_network req = Inl RequestError"

text \<open>
  \<open>ModelPickerModal.onOpen\<close>, the only writer of the cache: a list the call returns is
  stored under the provider; when the call throws, nothing is stored.
\<close>

definition store :: "cache \<Rightarrow> jsstring \<Rightarrow> error + ModelInfo list \<Rightarrow> cache" where
  "store modelCache provider r =
     (case r of Inr allModels \<Rightarrow> modelCache(provider \<mapsto> allModels) | Inl e \<Rightarrow> modelCache)"

text \<open>
  The process: the cache and the calls that wait for the network. \<open>Open\<close> is a
  \<open>ModelPickerModal.onOpen\<close> with its provider, key and base URL: a call that is
  \<open>Done\<close> at once stores its result in the same turn of the event loop, a call that
  sends a request waits. \<open>Response i r\<close> is the answer \<open>r\<close> to the \<open>i\<close>-th waiting call,
  which then resumes and stores.
\<close>

record process =
  modelCache :: cache
  in_flight :: "(jsstring \<times> request) list"

datatype event =
    Open jsstring "jsstring option" "jsstring option"
  | Response nat "error + jsval"

fun exec :: "host \<Rightarrow> process \<Rightarrow> event \<Rightarrow> process" where
  "exec h s (Open provider apiKey' baseURL') =
     (case fetch_begin (modelCache s) provider apiKey' baseURL' of
        Done r \<Rightarrow> s\<lparr> modelCache := store (modelCache s) provider r \<rparr>
      | Await req \<Rightarrow> s\<lparr> in_flight := in_flight s @ [(provider, req)] \<rparr>)"
| "exec h s (Response i r) =
     (if i < length (in_flight s) then
        \<lparr> modelCache =
            store (modelCache s) (fst (in_flight s ! i))
              (fetch_resume h (fst (in_flight s ! i)) r),
          in_flight = take i (in_flight s) @ drop (Suc i) (in_flight s) \<rparr>
      else s)"

definition run :: "host \<Rightarrow> process \<Rightarrow> event list \<Rightarrow> process" where
  "run h s evs = foldl (exec h) s evs"


section \<open>Streaming metrics (main.ts)\<close>

text \<open>
  The value of a Number: a double (\<open>Finite r\<close>, with \<open>r\<close> the rational it stands for),
  an infinity or \<open>NaN\<close>. The zero has no sign here: no division below has a negative
  zero as an operand (the duration is a difference of integers, and a count that is
  \<open>-0\<close> is not positive).
\<close>

datatype jsnum = Finite rat | PosInfinity | NegInfinity | NaN

text \<open>The test \<open>x > 0\<close> on a Number.\<close>

fun js_positive :: "jsnum \<Rightarrow> bool" where
  "js_positive (Finite r) = (0 < r)"
| "js_positive PosInfinity = True"
| "js_positive NegInfinity = False"
| "js_positive NaN = False"

text \<open>
  The double nearest to a rational (binary64, round to nearest, ties to even), which is
  what a division returns for the exact quotient. \<open>blen n\<close> is the number of binary
  digits of \<open>n\<close>; \<open>exponent a\<close> is the \<open>e\<close> with \<open>2^e \<le> a < 2^(e+1)\<close>, for a positive
  \<open>a\<close>; doubles are spaced \<open>2^(e-52)\<close> apart there, and \<open>2^(-1074)\<close> apart below
  \<open>2^(-1022)\<close>; a magnitude of at least \<open>2^1024 - 2^970\<close> rounds to an infinity.
\<close>

definition pow2 :: "int \<Rightarrow> rat" where
  "pow2 k = (if 0 \<le> k then 2 ^ nat k else 1 / 2 ^ nat (- k))"

function blen :: "int \<Rightarrow> int" where
  "blen n = (if n \<le> 0 then 0 else 1 + blen (n div 2))"
  by pat_completeness auto
termination
  by (relation "measure nat") auto

declare blen.simps [simp del]

definition exponent :: "rat \<Rightarrow> int" where
  "exponent a =
     (if 1 \<le> a then blen \<lfloor>a\<rfloor> - 1
      else - blen (\<lceil>1 / a\<rceil> - 1))"

definition round_half_even :: "rat \<Rightarrow> int" where
  "round_half_even x =
     (let f = \<lfloor>x\<rfloor>; d = x - of_int f
      in if d < 1 / 2 then f
         else if 1 / 2 < d then f + 1
         else if even f then f else f + 1)"

definition nearest_double :: "rat \<Rightarrow> rat" where
  "nearest_double a =
     (let ulp = pow2 (max (exponent a) (- 1022) - 52)
      in of_int (round_half_even (a / ulp)) * ulp)"

definition round_double :: "rat \<Rightarrow> jsnum" where
  "round_double q =
     (if q = 0 then Finite 0
      else if pow2 1024 - pow2 970 \<le> \<bar>q\<bar>
        then (if 0 < q then PosInfinity else NegInfinity)
      else Finite (if 0 < q then nearest_double q else - nearest_double (- q)))"

text \<open>The division \<open>x / y\<close> of two Numbers (IEEE 754).\<close>

fun js_divide :: "jsnum \<Rightarrow> jsnum \<Rightarrow> jsnum" where
  "js_divide NaN y = NaN"
| "js_divide x NaN = NaN"
| "js_divide PosInfinity PosInfinity = NaN"
| "js_divide PosInfinity NegInfinity = NaN"
| "js_divide NegInfinity PosInfinity = NaN"
| "js_divide NegInfinity NegInfinity = NaN"
| "js_divide PosInfinity (Finite y) = (if y < 0 then NegInfinity else PosInfinity)"
| "js_divide NegInfinity (Finite y) = (if y < 0 then PosInfinity else NegInfinity)"
| "js_divide (Finite x) PosInfinity = Finite 0"
| "js_divide (Finite x) NegInfinity = Finite 0"
| "js_divide (Finite x) (Finite y) =
     (if y = 0 then (if x = 0 then NaN else if 0 < x then PosInfinity else NegInfinity)
      else round_double (x / y))"

text \<open>
  One chunk of the stream as \<open>onOpen\<close> reads it: \<open>chunk.choices[0]?.delta?.content\<close>
  (\<open>None\<close> when a link of the chain is missing), \<open>chunk.usage\<close> with its prompt and
  completion token counts, which are the Numbers the response holds (nothing checks
  them), and the value \<open>Date.now()\<close> has when the chunk is handled. Times are integers,
  in milliseconds; a difference of two clock readings is below \<open>2^53\<close> and so is exact
  as a Number.
\<close>

record chunk =
  content :: "jsstring option"
  usage :: "(jsnum \<times> jsnum) option"
  now :: int

record session =
  rollingText :: jsstring
  promptTokens :: jsnum
  completionTokens :: jsnum
  startTime :: int
  firstTokenTime :: "int option"

definition new_session :: "int \<Rightarrow> session" where
  "new_session t =
     \<lparr> rollingText = [], promptTokens = Finite 0, completionTokens = Finite 0,
       startTime = t, firstTokenTime = None \<rparr>"

text \<open>The body of the \<open>for await\<close> loop; a content that is the empty string is falsy.\<close>

definition on_chunk :: "session \<Rightarrow> chunk \<Rightarrow> session" where
  "on_chunk s c =
     (let s1 = (case content c of
                  None \<Rightarrow> s
                | Some d \<Rightarrow>
                    if d = [] then s
                    else s\<lparr> firstTokenTime :=
                              (if firstTokenTime s = None then Some (now c)
                               else firstTokenTime s),
                            rollingText := rollingText s @ d \<rparr>)
      in case usage c of
           None \<Rightarrow> s1
         | Some (p, q) \<Rightarrow> s1\<lparr> promptTokens := p, completionTokens := q \<rparr>)"

definition stream :: "session \<Rightarrow> chunk list \<Rightarrow> session" where
  "stream s cs = foldl on_chunk s cs"

text \<open>
  The text \<open>tps\<close>: the literal \<open>"0.00"\<close>, or \<open>x.toFixed(2)\<close> for the quotient \<open>x\<close>
  (kept as the number it renders).
\<close>

datatype tps_text = Literal jsstring | ToFixed2 jsnum

record metrics =
  totalDuration :: int
  ttft :: int
  tps :: tps_text
  speedInfo :: "tps_text option"

text \<open>
  The statements after the loop. \<open>firstTokenTime ? \<dots> : 0\<close> is false for \<open>null\<close> and
  for the time 0. \<open>elapsed_seconds d\<close> is \<open>totalDuration / 1000\<close>. \<open>speedInfo\<close> is the
  part of the timing line that shows \<open>tps\<close>: it is the empty string (\<open>None\<close>) unless the
  completion token count is positive, so that the literal \<open>"0.00"\<close> is never shown.
\<close>

definition elapsed_seconds :: "int \<Rightarrow> jsnum" where
  "elapsed_seconds d = js_divide (Finite (of_int d)) (Finite 1000)"

definition finish :: "session \<Rightarrow> int \<Rightarrow> metrics" where
  "finish s endTime =
     (let totalDuration' = endTime - startTime s
      in \<lparr> totalDuration = totalDuration',
           ttft = (case firstTokenTime s of
                     None \<Rightarrow> 0
                   | Some t \<Rightarrow> if t = 0 then 0 else t - startTime s),
           tps = (if js_positive (completionTokens s)
                  then ToFixed2 (js_divide (completionTokens s)
                                   (elapsed_seconds totalDuration'))
                  else Literal (js ''0.00'')),
           speedInfo = (if js_positive (completionTokens s)
                        then Some (ToFixed2 (js_divide (completionTokens s)
                                               (elapsed_seconds totalDuration')))
                        else None) \<rparr>)"


section \<open>Saving a note (main.ts)\<close>

text \<open>
  The vault maps the path of a file to its content; \<open>adapter.exists(p)\<close> is the test
  that \<open>p\<close> has one. The counter of the loop is a number that only ever holds a natural
  number (it is exact up to \<open>2^53\<close>, far beyond the files a vault holds); the template
  literal renders it in decimal.
\<close>

type_synonym vault = "jsstring \<rightharpoonup> jsstring"

definition digit :: "nat \<Rightarrow> codeunit" where
  "digit d = of_nat (48 + d)"

function decimal :: "nat \<Rightarrow> jsstring" where
  "decimal n = (if n < 10 then [digit n] else decimal (n div 10) @ [digit (n mod 10)])"
  by pat_completeness auto
termination
  by (relation "measure id") auto

declare decimal.simps [simp del]

definition notePath :: "jsstring \<Rightarrow> jsstring \<Rightarrow> jsstring" where
  "notePath parentPath fileName =
     (if parentPath \<noteq> [] then parentPath @ js ''/'' @ fileName @ js ''.md''
      else fileName @ js ''.md'')"

definition numberedPath :: "jsstring \<Rightarrow> jsstring \<Rightarrow> nat \<Rightarrow> jsstring" where
  "numberedPath parentPath fileName counter =
     (if parentPath \<noteq> []
      then parentPath @ js ''/'' @ fileName @ js '' '' @ decimal counter @ js ''.md''
      else fileName @ js '' '' @ decimal counter @ js ''.md'')"

text \<open>
  The \<open>while\<close> loop of \<open>handleChoice\<close>. It ends only at a path that does not exist, so
  it is a partial function: \<open>None\<close> is the loop that never ends.
\<close>

partial_function (option) probe ::
  "vault \<Rightarrow> jsstring \<Rightarrow> jsstring \<Rightarrow> jsstring \<Rightarrow> nat \<Rightarrow> jsstring option" where
  "probe v parentPath fileName finalPath counter =
     (if v finalPath \<noteq> None
      then probe v parentPath fileName (numberedPath parentPath fileName counter) (counter + 1)
      else Some finalPath)"

datatype mode = Append | New

text \<open>
  What a choice leaves: the vault, \<open>finalPath\<close> and the text that replaces the
  selection; or the failure the \<open>catch\<close> reports (reading a file that is not there).
  \<open>finalPath.replace(/\.md$/, "")\<close> drops the extension.
\<close>

datatype saved = Saved vault jsstring jsstring | Failed

definition linkName :: "jsstring \<Rightarrow> jsstring" where
  "linkName finalPath =
     (if endsWith finalPath (js ''.md'') then take (length finalPath - 3) finalPath
      else finalPath)"

definition wikiLink :: "jsstring \<Rightarrow> jsstring \<Rightarrow> jsstring" where
  "wikiLink finalPath userSelection =
     js ''[['' @ linkName finalPath @ js ''|'' @ userSelection @ js '']]''"

definition separator :: jsstring where
  "separator = [0x0A, 0x0A, 0x2D, 0x2D, 0x2D, 0x0A, 0x0A]"

definition handleChoice ::
  "mode \<Rightarrow> vault \<Rightarrow> jsstring \<Rightarrow> jsstring \<Rightarrow> jsstring \<Rightarrow> jsstring \<Rightarrow> saved option" where
  "handleChoice mode' v parentPath fileName fullText userSelection =
     (let fullPath = notePath parentPath fileName
      in case mode' of
           Append \<Rightarrow>
             (case v fullPath of
                None \<Rightarrow> Some Failed
              | Some existing \<Rightarrow>
                  Some (Saved (v(fullPath \<mapsto> existing @ separator @ fullText)) fullPath
                          (wikiLink fullPath userSelection)))
         | New \<Rightarrow>
             (case probe v parentPath fileName fullPath 1 of
                None \<Rightarrow> None
              | Some finalPath \<Rightarrow>
                  Some (Saved (v(finalPath \<mapsto> fullText)) finalPath
                          (wikiLink finalPath userSelection))))"



section \<open>Properties of the provider configuration\<close>

lemma js_empty: "js '''' = []"
  by (simp add: js_def)

lemma header_keys_distinct: "js ''HTTP-Referer'' \<noteq> js ''X-Title''"
  by (simp add: js_def)

text \<open>
  Claim C2. When the provider is \<open>openrouter\<close>, the base URL is the OpenRouter API root
  whatever the stored base URL is, the key and the model are read from the OpenRouter
  fields (the key then goes through the empty-key placeholder of the return statement),
  the headers hold \<open>HTTP-Referer\<close> exactly when the referer is non-empty and \<open>X-Title\<close>
  exactly when the title is non-empty, each with the stored value and with no other key,
  and the headers field is undefined, not an empty object, exactly when both are empty.
\<close>

theorem getProviderConfig_openrouter:
  assumes "dropdownValue s = js ''openrouter''"
  shows "cfg_baseURL (getProviderConfig s) = js ''https://openrouter.ai/api/v1'' \<and>
         cfg_apiKey (getProviderConfig s) =
           (if openRouterApiKey s = [] then js ''-'' else openRouterApiKey s) \<and>
         cfg_model (getProviderConfig s) = openRouterModel s \<and>
         (cfg_defaultHeaders (getProviderConfig s) = None \<longleftrightarrow>
            openRouterReferer s = [] \<and> openRouterTitle s = []) \<and>
         (\<forall>hs. cfg_defaultHeaders (getProviderConfig s) = Some hs \<longrightarrow>
            hs \<noteq> [] \<and>
            map_of hs (js ''HTTP-Referer'') =
              (if openRouterReferer s = [] then None else Some (openRouterReferer s)) \<and>
            map_of hs (js ''X-Title'') =
              (if openRouterTitle s = [] then None else Some (openRouterTitle s)) \<and>
            fst ` set hs \<subseteq> {js ''HTTP-Referer'', js ''X-Title''})"
  using assms header_keys_distinct
  by (auto simp: getProviderConfig_def Let_def js_empty)

theorem getProviderConfig_openrouter_witness:
  "dropdownValue (DEFAULT_SETTINGS\<lparr>dropdownValue := js ''openrouter'',
      baseURL := js ''http://localhost:8080/v1/'',
      openRouterReferer := js ''https://example.org''\<rparr>) = js ''openrouter'' \<and>
   cfg_baseURL (getProviderConfig (DEFAULT_SETTINGS\<lparr>dropdownValue := js ''openrouter'',
      baseURL := js ''http://localhost:8080/v1/'',
      openRouterReferer := js ''https://example.org''\<rparr>)) = js ''https://openrouter.ai/api/v1'' \<and>
   cfg_defaultHeaders (getProviderConfig (DEFAULT_SETTINGS\<lparr>dropdownValue := js ''openrouter'',
      baseURL := js ''http://localhost:8080/v1/'',
      openRouterReferer := js ''https://example.org''\<rparr>)) =
     Some [(js ''HTTP-Referer'', js ''https://example.org''),
           (js ''X-Title'', js ''Obsidian Explain Selection'')]"
  using getProviderConfig_openrouter [of "DEFAULT_SETTINGS\<lparr>dropdownValue := js ''openrouter'',
      baseURL := js ''http://localhost:8080/v1/'',
      openRouterReferer := js ''https://example.org''\<rparr>"]
  by (simp add: DEFAULT_SETTINGS_def getProviderConfig_def Let_def js_def)

text \<open>
  Claim C9. For every settings value, whatever the provider, the key of the result is
  never the empty string: an empty resolved key becomes the placeholder \<open>-\<close>, which is
  not empty, and a non-empty resolved key is returned as it is. The resolved key is the
  OpenRouter key for the provider \<open>openrouter\<close> and the generic key otherwise.
\<close>

theorem getProviderConfig_apiKey_nonempty:
  "cfg_apiKey (getProviderConfig s) \<noteq> [] \<and>
   js ''-'' \<noteq> [] \<and>
   cfg_apiKey (getProviderConfig s) =
     (let k = (if dropdownValue s = js ''openrouter'' then openRouterApiKey s else apiKey s)
      in if k = [] then js ''-'' else k)"
  by (simp add: getProviderConfig_def Let_def js_def)

theorem getProviderConfig_apiKey_nonempty_witness:
  "cfg_apiKey (getProviderConfig DEFAULT_SETTINGS) = js ''-'' \<and>
   cfg_apiKey (getProviderConfig (DEFAULT_SETTINGS\<lparr>apiKey := js ''sk-x''\<rparr>)) = js ''sk-x''"
  using getProviderConfig_apiKey_nonempty [of DEFAULT_SETTINGS]
    getProviderConfig_apiKey_nonempty [of "DEFAULT_SETTINGS\<lparr>apiKey := js ''sk-x''\<rparr>"]
  by (simp add: DEFAULT_SETTINGS_def js_def)


section \<open>Properties of the OpenAI model filter\<close>

lemma compare_entries: "compare_ids h (entry s) (entry t) = Inr (localeCompare h s t)"
  by (simp add: compare_ids_def entry_def)

lemma insert_by_entries:
  "insert_by (compare_ids h) (entry x) (map entry ys) =
     Inr (map entry (insert_str (localeCompare h) x ys))"
  by (induction ys) (simp_all add: compare_entries bind_err_def)

lemma insertion_sort_entries:
  "insertion_sort (compare_ids h) (map entry xs) =
     Inr (map entry (sort_str (localeCompare h) xs))"
  by (induction xs) (simp_all add: insert_by_entries bind_err_def)

lemma consistent_on_entries:
  assumes "consistent (localeCompare h)"
  shows "consistent_on (compare_ids h) (map entry xs)"
proof -
  from assms have anti: "\<And>a b. (localeCompare h a b < 0) = (0 < localeCompare h b a)"
    and tr: "\<And>a b c. localeCompare h a b \<le> 0 \<Longrightarrow> localeCompare h b c \<le> 0 \<Longrightarrow>
               localeCompare h a c \<le> 0"
    unfolding consistent_def by blast+
  have r: "returns (compare_ids h) (entry a) (entry b)" for a b
    by (simp add: returns_def compare_entries)
  have ba: "before (compare_ids h) (entry a) (entry b) =
      after (compare_ids h) (entry b) (entry a)" for a b
    by (simp add: before_def after_def compare_entries anti)
  have na: "not_after (compare_ids h) (entry a) (entry b) \<and>
      not_after (compare_ids h) (entry b) (entry c) \<longrightarrow>
      not_after (compare_ids h) (entry a) (entry c)" for a b c
    using tr [of a b c] by (simp add: not_after_def compare_entries)
  have el: "\<exists>a. x = entry a" if "x \<in> set (map entry xs)" for x
    using that by auto
  show ?thesis
    unfolding consistent_on_def list_all_iff
  proof (intro conjI ballI)
    fix x y
    assume x: "x \<in> set (map entry xs)" and y: "y \<in> set (map entry xs)"
    from el [OF x] obtain a where a: "x = entry a" ..
    from el [OF y] obtain b where b: "y = entry b" ..
    show "returns (compare_ids h) x y"
      unfolding a b by (rule r)
    show "before (compare_ids h) x y = after (compare_ids h) y x"
      unfolding a b by (rule ba)
  next
    fix x y z
    assume x: "x \<in> set (map entry xs)" and y: "y \<in> set (map entry xs)"
      and z: "z \<in> set (map entry xs)"
    from el [OF x] obtain a where a: "x = entry a" ..
    from el [OF y] obtain b where b: "y = entry b" ..
    from el [OF z] obtain c where c: "z = entry c" ..
    show "not_after (compare_ids h) x y \<and> not_after (compare_ids h) y z \<longrightarrow>
          not_after (compare_ids h) x z"
      unfolding a b c by (rule na)
  qed
qed

lemma array_sort_entries:
  assumes "consistent (localeCompare h)"
  shows "array_sort other (compare_ids h) (map entry xs) =
           Inr (map entry (sort_str (localeCompare h) xs))"
proof (cases "length xs < 2")
  case True
  then have "xs = [] \<or> (\<exists>x. xs = [x])"
    by (cases xs) (auto simp: length_Suc_conv)
  then show ?thesis
    by (auto simp: array_sort_def)
next
  case False
  with consistent_on_entries [OF assms, of xs] show ?thesis
    by (simp add: array_sort_def insertion_sort_entries)
qed

lemma set_insert_str: "set (insert_str lc x ys) = insert x (set ys)"
  by (induction ys) auto

lemma set_sort_str: "set (sort_str lc xs) = set xs"
  by (induction xs) (simp_all add: set_insert_str)

lemma sorted_insert_str:
  assumes "consistent lc" "sorted_wrt (\<lambda>a b. lc a b \<le> 0) ys"
  shows "sorted_wrt (\<lambda>a b. lc a b \<le> 0) (insert_str lc x ys)"
  using assms(2)
proof (induction ys)
  case Nil
  then show ?case by simp
next
  case (Cons y ys)
  from assms(1) have anti: "\<And>a b. (lc a b < 0) = (0 < lc b a)"
    and tr: "\<And>a b c. lc a b \<le> 0 \<Longrightarrow> lc b c \<le> 0 \<Longrightarrow> lc a c \<le> 0"
    unfolding consistent_def by blast+
  have tot: "lc a b \<le> 0 \<or> lc b a \<le> 0" for a b
    using anti [of b a] by linarith
  show ?case
  proof (cases "lc x y \<le> 0")
    case True
    with Cons.prems tr show ?thesis by auto
  next
    case False
    with tot have "lc y x \<le> 0" by blast
    with False Cons show ?thesis by (auto simp: set_insert_str)
  qed
qed

lemma sorted_sort_str:
  "consistent lc \<Longrightarrow> sorted_wrt (\<lambda>a b. lc a b \<le> 0) (sort_str lc xs)"
  by (induction xs) (simp_all add: sorted_insert_str)

lemma sort_str_sorted_id:
  "sorted_wrt (\<lambda>a b. lc a b \<le> 0) xs \<Longrightarrow> sort_str lc xs = xs"
proof (induction xs)
  case Nil
  then show ?case by simp
next
  case (Cons x xs)
  then have "sort_str lc xs = xs" by simp
  moreover from Cons.prems have "insert_str lc x xs = x # xs"
    by (cases xs) auto
  ultimately show ?case by simp
qed


lemma codeunit_compare_anti: "(codeunit_compare a b < 0) = (0 < codeunit_compare b a)"
  by (induction a b rule: codeunit_compare.induct) auto

lemma codeunit_compare_trans:
  "codeunit_compare a b \<le> 0 \<Longrightarrow> codeunit_compare b c \<le> 0 \<Longrightarrow> codeunit_compare a c \<le> 0"
proof (induction a arbitrary: b c)
  case Nil
  then show ?case by (cases c) auto
next
  case (Cons x xs)
  from Cons.prems obtain y ys where b: "b = y # ys" by (cases b) auto
  from Cons.prems b obtain z zs where c: "c = z # zs" by (cases c) auto
  from Cons.prems b c have xy: "x \<le> y" and yz: "y \<le> z"
    by (auto split: if_splits)
  show ?case
  proof (cases "x < z")
    case True
    then show ?thesis by (simp add: c)
  next
    case False
    with xy yz have eq: "x = y" "y = z" by auto
    with Cons.prems b c have "codeunit_compare xs ys \<le> 0" "codeunit_compare ys zs \<le> 0"
      by auto
    then have "codeunit_compare xs zs \<le> 0" by (rule Cons.IH)
    with eq show ?thesis by (simp add: c)
  qed
qed

lemma consistent_codeunit_compare: "consistent codeunit_compare"
  unfolding consistent_def using codeunit_compare_anti codeunit_compare_trans by blast

lemma filterOpenAIModels_eq:
  "consistent (localeCompare h) \<Longrightarrow>
   filterOpenAIModels h models =
     Inr (map entry (sort_str (localeCompare h)
            (map model_id (filter (\<lambda>m. matchesChat (model_id m) \<and> \<not> excluded (model_id m)) models))))"
proof -
  assume c: "consistent (localeCompare h)"
  have "map (\<lambda>m. \<lparr> mi_id = JStr (model_id m), mi_name = JUndefined, mi_pricing = None \<rparr>) xs
          = map entry (map model_id xs)" for xs :: "OpenAIModel list"
    by (simp add: entry_def)
  then show ?thesis
    by (simp add: filterOpenAIModels_def Let_def array_sort_entries [OF c] del: map_map)
qed

lemma sorted_entries:
  "sorted_wrt (\<lambda>a b. localeCompare h a b \<le> 0) xs \<Longrightarrow> sorted_wrt (id_le h) (map entry xs)"
  by (simp add: sorted_wrt_map id_le_def entry_def)

lemma map_JStr_inj: "map JStr xs = map JStr ys \<Longrightarrow> xs = ys"
  by (simp add: inj_def)

text \<open>
  Claim C4. For a host whose \<open>localeCompare\<close> is a consistent comparator,
  \<open>filterOpenAIModels\<close> returns a list that is sorted in ascending order by id; the ids
  of the list are exactly the ids of the input that start with a prefix of the allow list
  and with no prefix of the deny list, so a model whose id starts with a deny prefix is
  excluded whether or not an allow prefix matches as well; and the function is idempotent:
  applied to its own output, taken as \<open>{ id }\<close> records, it returns that output.
\<close>

theorem filterOpenAIModels_sorted_idempotent:
  assumes "consistent (localeCompare h)"
  shows "\<exists>out. filterOpenAIModels h models = Inr out \<and>
           sorted_wrt (id_le h) out \<and>
           mi_id ` set out =
             (\<lambda>m. JStr (model_id m)) `
               {m \<in> set models. matchesChat (model_id m) \<and> \<not> excluded (model_id m)} \<and>
           (\<forall>m \<in> set models. excluded (model_id m) \<longrightarrow> JStr (model_id m) \<notin> mi_id ` set out) \<and>
           (\<forall>again. map (\<lambda>m. JStr (model_id m)) again = map mi_id out \<longrightarrow>
              filterOpenAIModels h again = Inr out)"
proof -
  let ?lc = "localeCompare h"
  let ?keep = "\<lambda>m. matchesChat (model_id m) \<and> \<not> excluded (model_id m)"
  let ?ss = "sort_str ?lc (map model_id (filter ?keep models))"
  let ?out = "map entry ?ss"
  have out: "filterOpenAIModels h models = Inr ?out"
    using assms by (rule filterOpenAIModels_eq)
  have sorted_ss: "sorted_wrt (\<lambda>a b. ?lc a b \<le> 0) ?ss"
    using assms by (rule sorted_sort_str)
  then have sorted: "sorted_wrt (id_le h) ?out"
    by (rule sorted_entries)
  have ids: "map mi_id ?out = map JStr ?ss"
    by (simp add: entry_def)
  have set_ss: "set ?ss = model_id ` {m \<in> set models. ?keep m}"
    by (simp add: set_sort_str)
  have set_out: "mi_id ` set ?out = (\<lambda>m. JStr (model_id m)) ` {m \<in> set models. ?keep m}"
  proof -
    have "mi_id ` set ?out = JStr ` set ?ss"
      using ids by (metis list.set_map)
    then show ?thesis
      unfolding set_ss by (simp add: image_image)
  qed
  have excl: "\<forall>m \<in> set models. excluded (model_id m) \<longrightarrow> JStr (model_id m) \<notin> mi_id ` set ?out"
    unfolding set_out by auto
  have idem: "filterOpenAIModels h again = Inr ?out"
    if a: "map (\<lambda>m. JStr (model_id m)) again = map mi_id ?out" for again
  proof -
    have "map JStr (map model_id again) = map (\<lambda>m. JStr (model_id m)) again"
      by simp
    also have "\<dots> = map mi_id ?out" by (rule a)
    also have "\<dots> = map JStr ?ss" by (rule ids)
    finally have "map JStr (map model_id again) = map JStr ?ss" .
    then have m: "map model_id again = ?ss"
      by (rule map_JStr_inj)
    have "\<forall>m \<in> set again. ?keep m"
    proof
      fix m assume "m \<in> set again"
      then have "model_id m \<in> set ?ss" using m by (metis imageI list.set_map)
      then show "?keep m" unfolding set_ss by auto
    qed
    then have "filter ?keep again = again"
      by (simp add: filter_id_conv)
    then have "filterOpenAIModels h again = Inr (map entry (sort_str ?lc ?ss))"
      by (simp add: filterOpenAIModels_eq [OF assms] m)
    with sorted_ss show ?thesis
      by (simp add: sort_str_sorted_id)
  qed
  from out sorted set_out excl idem show ?thesis by blast
qed


theorem filterOpenAIModels_sorted_idempotent_witness:
  "consistent (localeCompare codeunit_host) \<and>
   excluded (js ''whisper-1'') \<and>
   filterOpenAIModels codeunit_host
     [\<lparr>model_id = js ''gpt-4o''\<rparr>, \<lparr>model_id = js ''whisper-1''\<rparr>,
      \<lparr>model_id = js ''chatgpt-4o-latest''\<rparr>, \<lparr>model_id = js ''gpt-3.5-turbo''\<rparr>] =
     Inr [\<lparr>mi_id = JStr (js ''chatgpt-4o-latest''), mi_name = JUndefined, mi_pricing = None\<rparr>,
          \<lparr>mi_id = JStr (js ''gpt-3.5-turbo''), mi_name = JUndefined, mi_pricing = None\<rparr>,
          \<lparr>mi_id = JStr (js ''gpt-4o''), mi_name = JUndefined, mi_pricing = None\<rparr>] \<and>
   filterOpenAIModels codeunit_host
     [\<lparr>model_id = js ''chatgpt-4o-latest''\<rparr>, \<lparr>model_id = js ''gpt-3.5-turbo''\<rparr>,
      \<lparr>model_id = js ''gpt-4o''\<rparr>] =
     Inr [\<lparr>mi_id = JStr (js ''chatgpt-4o-latest''), mi_name = JUndefined, mi_pricing = None\<rparr>,
          \<lparr>mi_id = JStr (js ''gpt-3.5-turbo''), mi_name = JUndefined, mi_pricing = None\<rparr>,
          \<lparr>mi_id = JStr (js ''gpt-4o''), mi_name = JUndefined, mi_pricing = None\<rparr>]"
proof -
  have c: "consistent (localeCompare codeunit_host)"
    by (simp add: codeunit_host_def consistent_codeunit_compare)
  have lc: "localeCompare codeunit_host = codeunit_compare"
    by (simp add: codeunit_host_def)
  have e1: "filterOpenAIModels codeunit_host
     [\<lparr>model_id = js ''gpt-4o''\<rparr>, \<lparr>model_id = js ''whisper-1''\<rparr>,
      \<lparr>model_id = js ''chatgpt-4o-latest''\<rparr>, \<lparr>model_id = js ''gpt-3.5-turbo''\<rparr>] =
     Inr [\<lparr>mi_id = JStr (js ''chatgpt-4o-latest''), mi_name = JUndefined, mi_pricing = None\<rparr>,
          \<lparr>mi_id = JStr (js ''gpt-3.5-turbo''), mi_name = JUndefined, mi_pricing = None\<rparr>,
          \<lparr>mi_id = JStr (js ''gpt-4o''), mi_name = JUndefined, mi_pricing = None\<rparr>]"
    unfolding filterOpenAIModels_eq [OF c] lc
    by (simp add: matchesChat_def excluded_def chatPrefixes_def excludePrefixes_def
        startsWith_def js_def entry_def)
  have e2: "filterOpenAIModels codeunit_host
     [\<lparr>model_id = js ''chatgpt-4o-latest''\<rparr>, \<lparr>model_id = js ''gpt-3.5-turbo''\<rparr>,
      \<lparr>model_id = js ''gpt-4o''\<rparr>] =
     Inr [\<lparr>mi_id = JStr (js ''chatgpt-4o-latest''), mi_name = JUndefined, mi_pricing = None\<rparr>,
          \<lparr>mi_id = JStr (js ''gpt-3.5-turbo''), mi_name = JUndefined, mi_pricing = None\<rparr>,
          \<lparr>mi_id = JStr (js ''gpt-4o''), mi_name = JUndefined, mi_pricing = None\<rparr>]"
    using filterOpenAIModels_sorted_idempotent [OF c,
        of "[\<lparr>model_id = js ''gpt-4o''\<rparr>, \<lparr>model_id = js ''whisper-1''\<rparr>,
             \<lparr>model_id = js ''chatgpt-4o-latest''\<rparr>, \<lparr>model_id = js ''gpt-3.5-turbo''\<rparr>]"]
    unfolding e1 by simp
  have x: "excluded (js ''whisper-1'')"
    by (simp add: excluded_def excludePrefixes_def startsWith_def js_def)
  from c x e1 e2 show ?thesis by simp
qed

section \<open>Properties of the prompt builder\<close>

lemma length_ellipsis: "length (js ''...'') = 3"
  by (simp add: js_def)

text \<open>
  Claim C1. \<open>buildPrompt\<close> should insert the selection and the context as they are, in
  one pass, so that a placeholder-shaped text inside the selection stays unexpanded. The
  code runs two passes, and the second pass reads what the first one inserted: with the
  template \<open>{{selection}} | {{context}}\<close> of the special-characters test, the selection
  \<open>{{context}}\<close> and the context \<open>Y\<close>, the result is \<open>Y | Y\<close>, where a single pass
  gives \<open>{{context}} | Y\<close>, the selection and the context as they are.
\<close>

theorem buildPrompt_expands_context_in_selection:
  "buildPrompt (js ''{{selection}} | {{context}}'') (js ''{{context}}'') (js ''Y'')
     = js ''Y | Y'' \<and>
   single_pass (js ''{{selection}} | {{context}}'') (js ''{{context}}'') (js ''Y'')
     = js ''{{context}} | Y''"
  by (simp add: buildPrompt_def js_def replace_all.simps single_pass.simps startsWith_def)

text \<open>
  Claim C3, as the code has it. \<open>buildMenuLabel(template, selection, 30)\<close> is at most
  30 code units long. The stages run in order: the selection is cut to its first 24 code
  units followed by \<open>...\<close> when it is longer than 24 (the cut selection then ends in
  \<open>...\<close>), and is left as it is otherwise; the cut selection replaces \<open>{{selection}}\<close>
  and \<open>...\<close> replaces \<open>{{context}}\<close>; only then, when the label is longer than 30, it
  is cut to its first 27 code units followed by \<open>...\<close>. Whenever that truncation of the
  label occurs, the result is exactly 30 long and ends in \<open>...\<close>.
\<close>

theorem buildMenuLabel_30:
  "length (buildMenuLabel t s 30) \<le> 30 \<and>
   truncatedSelection s = (if 24 < length s then take 24 s @ js ''...'' else s) \<and>
   (24 < length s \<longrightarrow> endsWith (truncatedSelection s) (js ''...'')) \<and>
   buildMenuLabel t s 30 =
     (let label = replace_all (js ''{{context}}'') (js ''...'')
                    (replace_all (js ''{{selection}}'') (truncatedSelection s) t)
      in if 30 < length label then take 27 label @ js ''...'' else label) \<and>
   (30 < length (replace_all (js ''{{context}}'') (js ''...'')
                    (replace_all (js ''{{selection}}'') (truncatedSelection s) t)) \<longrightarrow>
      length (buildMenuLabel t s 30) = 30 \<and> endsWith (buildMenuLabel t s 30) (js ''...''))"
  by (simp add: buildMenuLabel_def truncatedSelection_def substring0_def Let_def
      length_ellipsis endsWith_def)

theorem buildMenuLabel_30_witness:
  "24 < length (js ''this is a very long selection that exceeds the limit'') \<and>
   endsWith (truncatedSelection (js ''this is a very long selection that exceeds the limit''))
     (js ''...'') \<and>
   30 < length (replace_all (js ''{{context}}'') (js ''...'')
          (replace_all (js ''{{selection}}'')
             (truncatedSelection (js ''this is a very long selection that exceeds the limit''))
             (js ''Explain {{selection}} in {{context}}''))) \<and>
   buildMenuLabel (js ''Explain {{selection}} in {{context}}'')
     (js ''this is a very long selection that exceeds the limit'') 30
     = js ''Explain this is a very long...''"
  using buildMenuLabel_30 [of "js ''Explain {{selection}} in {{context}}''"
      "js ''this is a very long selection that exceeds the limit''"]
  by (simp add: buildMenuLabel_def truncatedSelection_def substring0_def js_def
      replace_all.simps startsWith_def endsWith_def)


text \<open>
  A cut of the selection alone does not make the label end in \<open>...\<close>: the template
  goes on after the placeholder. With the template \<open>{{selection}}!\<close> and a selection of
  25 letters, the selection is cut, and the label is 28 long and ends in \<open>!\<close>.
\<close>

theorem buildMenuLabel_cut_selection_not_at_end:
  "24 < length (js ''aaaaaaaaaaaaaaaaaaaaaaaaa'') \<and>
   truncatedSelection (js ''aaaaaaaaaaaaaaaaaaaaaaaaa'') = js ''aaaaaaaaaaaaaaaaaaaaaaaa...'' \<and>
   buildMenuLabel (js ''{{selection}}!'') (js ''aaaaaaaaaaaaaaaaaaaaaaaaa'') 30
     = js ''aaaaaaaaaaaaaaaaaaaaaaaa...!'' \<and>
   length (buildMenuLabel (js ''{{selection}}!'') (js ''aaaaaaaaaaaaaaaaaaaaaaaaa'') 30) = 28 \<and>
   \<not> endsWith (buildMenuLabel (js ''{{selection}}!'') (js ''aaaaaaaaaaaaaaaaaaaaaaaaa'') 30)
       (js ''...'')"
  by (simp add: buildMenuLabel_def truncatedSelection_def substring0_def js_def
      replace_all.simps startsWith_def endsWith_def)


section \<open>Properties of the file name\<close>

lemma trim_id:
  assumes "xs \<noteq> []" "\<not> is_space (hd xs)" "\<not> is_space (last xs)"
  shows "trim xs = xs"
proof -
  from assms have a: "dropWhile is_space xs = xs"
    by (cases xs) auto
  from assms have "rev xs \<noteq> []" "\<not> is_space (hd (rev xs))"
    by (simp_all add: hd_rev)
  then have "dropWhile is_space (rev xs) = rev xs"
    by (cases "rev xs") auto
  with a show ?thesis by (simp add: trim_def)
qed

lemma trim_subset: "set (trim xs) \<subseteq> set xs"
  by (auto simp: trim_def dest!: set_dropWhileD)

lemma length_trim: "length (trim xs) \<le> length xs"
proof -
  have "length (trim xs) \<le> length (dropWhile is_space xs)"
    unfolding trim_def
    using length_dropWhile_le [of is_space "rev (dropWhile is_space xs)"] by simp
  also have "\<dots> \<le> length xs"
    by (rule length_dropWhile_le)
  finally show ?thesis .
qed

lemma fallback_not_forbidden: "\<forall>c \<in> set (js ''AI Explanation''). \<not> forbidden c"
  by (simp add: js_def forbidden_def)

lemma sanitizeFileName_no_forbidden: "c \<in> set (sanitizeFileName s) \<Longrightarrow> \<not> forbidden c"
proof -
  assume c: "c \<in> set (sanitizeFileName s)"
  show ?thesis
  proof (cases "trim (take 100 (filter (\<lambda>c. \<not> forbidden c) s)) = []")
    case True
    with c fallback_not_forbidden show ?thesis
      by (simp add: sanitizeFileName_def substring0_def)
  next
    case False
    with c have "c \<in> set (trim (take 100 (filter (\<lambda>c. \<not> forbidden c) s)))"
      by (simp add: sanitizeFileName_def substring0_def)
    then have "c \<in> set (take 100 (filter (\<lambda>c. \<not> forbidden c) s))"
      using trim_subset by blast
    then have "c \<in> set (filter (\<lambda>c. \<not> forbidden c) s)"
      by (rule in_set_takeD)
    then show ?thesis by simp
  qed
qed

lemma length_sanitizeFileName: "length (sanitizeFileName s) \<le> 100"
proof -
  have "length (trim (take 100 (filter (\<lambda>c. \<not> forbidden c) s))) \<le> 100"
    using length_trim [of "take 100 (filter (\<lambda>c. \<not> forbidden c) s)"] by simp
  then show ?thesis
    by (simp add: sanitizeFileName_def substring0_def Let_def js_def)
qed

lemma sanitizeFileName_clean:
  assumes "100 \<le> length s" "\<forall>c \<in> set s. \<not> forbidden c"
    "\<not> is_space (s ! 0)" "\<not> is_space (s ! 99)"
  shows "sanitizeFileName s = take 100 s"
proof -
  from assms(2) have f: "filter (\<lambda>c. \<not> forbidden c) s = s"
    by (simp add: filter_id_conv)
  from assms(1) have ne: "take 100 s \<noteq> []" by auto
  from assms(1) have "hd (take 100 s) = s ! 0"
    by (cases s) auto
  moreover have "last (take 100 s) = s ! 99"
  proof -
    have "last (take 100 s) = take 100 s ! (length (take 100 s) - 1)"
      using ne by (rule last_conv_nth)
    also have "\<dots> = s ! 99"
      using assms(1) by simp
    finally show ?thesis .
  qed
  ultimately have "trim (take 100 s) = take 100 s"
    using assms(3,4) ne by (simp add: trim_id)
  with f ne show ?thesis
    by (simp add: sanitizeFileName_def substring0_def)
qed

text \<open>
  Claim C6, as the code has it. \<open>sanitizeFileName\<close> removes every forbidden character
  (none is put in its place), keeps the first 100 code units of what is left, trims the
  white space at both ends, and returns \<open>AI Explanation\<close> when nothing is left; the result
  is never empty, holds no forbidden character and is at most 100 long; \<open>:::\<close> and the
  empty string give \<open>AI Explanation\<close>. A 200-character input gives exactly its first 100
  characters when it holds no forbidden character and its first and its hundredth
  character are not white space.
\<close>

theorem sanitizeFileName_spec:
  "sanitizeFileName s =
     (let r = trim (take 100 (filter (\<lambda>c. \<not> forbidden c) s))
      in if r = [] then js ''AI Explanation'' else r) \<and>
   sanitizeFileName s \<noteq> [] \<and>
   (\<forall>c \<in> set (sanitizeFileName s). \<not> forbidden c) \<and>
   length (sanitizeFileName s) \<le> 100 \<and>
   sanitizeFileName (js '':::'') = js ''AI Explanation'' \<and>
   sanitizeFileName (js '''') = js ''AI Explanation'' \<and>
   (length s = 200 \<and> (\<forall>c \<in> set s. \<not> forbidden c) \<and> \<not> is_space (s ! 0) \<and>
      \<not> is_space (s ! 99) \<longrightarrow>
    sanitizeFileName s = take 100 s \<and> length (sanitizeFileName s) = 100)"
proof -
  have a: "sanitizeFileName s =
     (let r = trim (take 100 (filter (\<lambda>c. \<not> forbidden c) s))
      in if r = [] then js ''AI Explanation'' else r)"
    by (simp add: sanitizeFileName_def substring0_def)
  have b: "sanitizeFileName s \<noteq> []"
    by (simp add: sanitizeFileName_def Let_def js_def)
  have c: "\<forall>c \<in> set (sanitizeFileName s). \<not> forbidden c"
    using sanitizeFileName_no_forbidden by blast
  have d: "sanitizeFileName (js '':::'') = js ''AI Explanation''"
    by (simp add: sanitizeFileName_def forbidden_def trim_def substring0_def js_def)
  have e: "sanitizeFileName (js '''') = js ''AI Explanation''"
    by (simp add: sanitizeFileName_def trim_def substring0_def js_def)
  have f: "sanitizeFileName s = take 100 s \<and> length (sanitizeFileName s) = 100"
    if "length s = 200" "\<forall>c \<in> set s. \<not> forbidden c" "\<not> is_space (s ! 0)"
      "\<not> is_space (s ! 99)"
    using that sanitizeFileName_clean [of s] by simp
  from a b c d e f length_sanitizeFileName [of s] show ?thesis by blast
qed

theorem sanitizeFileName_spec_witness:
  "length (replicate 200 (0x61 :: codeunit)) = 200 \<and>
   list_all (\<lambda>c. \<not> forbidden c) (replicate 200 (0x61 :: codeunit)) \<and>
   \<not> is_space (replicate 200 (0x61 :: codeunit) ! 0) \<and>
   \<not> is_space (replicate 200 (0x61 :: codeunit) ! 99) \<and>
   sanitizeFileName (replicate 200 0x61) = replicate 100 0x61 \<and>
   length (sanitizeFileName (replicate 200 0x61)) = 100"
proof -
  have h: "length (replicate 200 (0x61 :: codeunit)) = 200"
    "\<forall>c \<in> set (replicate 200 (0x61 :: codeunit)). \<not> forbidden c"
    "\<not> is_space (replicate 200 (0x61 :: codeunit) ! 0)"
    "\<not> is_space (replicate 200 (0x61 :: codeunit) ! 99)"
    by (simp_all add: forbidden_def is_space_def)
  with sanitizeFileName_spec [of "replicate 200 0x61"]
  have "sanitizeFileName (replicate 200 0x61) = take 100 (replicate 200 0x61) \<and>
        length (sanitizeFileName (replicate 200 0x61)) = 100"
    by blast
  with h show ?thesis
    by (simp add: list_all_iff)
qed

theorem sanitizeFileName_200_colons:
  "length (replicate 200 (0x3A :: codeunit)) = 200 \<and>
   sanitizeFileName (replicate 200 0x3A) = js ''AI Explanation'' \<and>
   length (sanitizeFileName (replicate 200 0x3A)) = 14"
  by (simp add: sanitizeFileName_def forbidden_def trim_def substring0_def js_def)



section \<open>Properties of the parsers\<close>

lemma top_field_missing:
  "\<not> truthy data \<or> \<not> truthy (read_prop data f) \<Longrightarrow> top_field data f = JArr []"
  by (cases data) (auto simp: top_field_def Let_def)

lemma parse_empty:
  "array_map g (JArr []) = Inr []" "array_sort other c [] = Inr []"
  by (simp_all add: array_map_def array_sort_def)

text \<open>
  Claim C5, as the code has it. \<open>parseOpenRouterModels\<close> and \<open>parseOllamaModels\<close>
  return the empty list, and do not raise, for every input whose top-level \<open>data\<close>
  (respectively \<open>models\<close>) field is missing, and also when the input or the field is
  falsy (\<open>undefined\<close>, \<open>null\<close>, \<open>false\<close>, \<open>0\<close>, the empty string); in particular on
  the empty object; and \<open>filterOpenAIModels\<close> of the empty list is the empty list.
\<close>

theorem parsers_missing_field:
  "(read_prop data (js ''data'') = JUndefined \<longrightarrow> parseOpenRouterModels h data = Inr []) \<and>
   (\<not> truthy data \<or> \<not> truthy (read_prop data (js ''data'')) \<longrightarrow>
      parseOpenRouterModels h data = Inr []) \<and>
   (read_prop data (js ''models'') = JUndefined \<longrightarrow> parseOllamaModels h data = Inr []) \<and>
   (\<not> truthy data \<or> \<not> truthy (read_prop data (js ''models'')) \<longrightarrow>
      parseOllamaModels h data = Inr []) \<and>
   parseOpenRouterModels h (JObj []) = Inr [] \<and>
   parseOllamaModels h (JObj []) = Inr [] \<and>
   filterOpenAIModels h [] = Inr []"
proof -
  have a: "parseOpenRouterModels h data = Inr []"
    if "\<not> truthy data \<or> \<not> truthy (read_prop data (js ''data''))"
    using top_field_missing [OF that]
    by (simp add: parseOpenRouterModels_def parse_empty bind_err_def)
  have b: "parseOllamaModels h data = Inr []"
    if "\<not> truthy data \<or> \<not> truthy (read_prop data (js ''models''))"
    using top_field_missing [OF that]
    by (simp add: parseOllamaModels_def parse_empty bind_err_def)
  have c: "parseOpenRouterModels h (JObj []) = Inr []"
    by (simp add: parseOpenRouterModels_def top_field_def parse_empty bind_err_def)
  have d: "parseOllamaModels h (JObj []) = Inr []"
    by (simp add: parseOllamaModels_def top_field_def parse_empty bind_err_def)
  have e: "filterOpenAIModels h [] = Inr []"
    by (simp add: filterOpenAIModels_def array_sort_def)
  from a b c d e show ?thesis by simp
qed

theorem parsers_missing_field_witness:
  "read_prop (JObj [(js ''object'', JStr (js ''list''))]) (js ''data'') = JUndefined \<and>
   parseOpenRouterModels codeunit_host (JObj [(js ''object'', JStr (js ''list''))]) = Inr [] \<and>
   \<not> truthy JNull \<and>
   parseOllamaModels codeunit_host JNull = Inr [] \<and>
   read_prop (JNum 5) (js ''models'') = JUndefined \<and>
   parseOllamaModels codeunit_host (JNum 5) = Inr []"
  using parsers_missing_field [of "JObj [(js ''object'', JStr (js ''list''))]" codeunit_host]
    parsers_missing_field [of JNull codeunit_host]
    parsers_missing_field [of "JNum 5" codeunit_host]
  by (simp add: js_def)

text \<open>
  The parsers are not total over every malformed input: reading \<open>m.id\<close> (or \<open>m.name\<close>)
  of an entry that is \<open>null\<close> raises a \<open>TypeError\<close>, and so does \<open>.map\<close> on a field
  that is a number.
\<close>

theorem parsers_raise_on_null_entry:
  "parseOpenRouterModels codeunit_host (JObj [(js ''data'', JArr [JNull])]) = Inl TypeError \<and>
   parseOllamaModels codeunit_host (JObj [(js ''models'', JArr [JNull])]) = Inl TypeError \<and>
   parseOpenRouterModels codeunit_host (JObj [(js ''data'', JNum 5)]) = Inl TypeError"
  by (simp add: parseOpenRouterModels_def parseOllamaModels_def top_field_def array_map_def
      openRouterEntry_def ollamaEntry_def get_prop_def nullish_def bind_err_def js_def)


section \<open>Properties of the numbered copy\<close>

lemma probe_from:
  assumes "v (numberedPath d n k) = None"
  shows "c \<le> k \<Longrightarrow> v cur \<noteq> None \<Longrightarrow>
         (\<forall>j. c \<le> j \<and> j < k \<longrightarrow> v (numberedPath d n j) \<noteq> None) \<Longrightarrow>
         probe v d n cur c = Some (numberedPath d n k)"
proof (induction "k - c" arbitrary: c cur)
  case 0
  then have "c = k" by simp
  with assms 0 show ?case
    by (simp add: probe.simps [of v d n cur] probe.simps [of v d n "numberedPath d n k"])
next
  case (Suc m)
  then have lt: "c < k" by simp
  with Suc.prems have ex: "v (numberedPath d n c) \<noteq> None" by simp
  have "probe v d n (numberedPath d n c) (c + 1) = Some (numberedPath d n k)"
  proof (rule Suc.hyps(1))
    show "m = k - (c + 1)" using Suc.hyps(2) by simp
    show "c + 1 \<le> k" using lt by simp
    show "v (numberedPath d n c) \<noteq> None" by (rule ex)
    show "\<forall>j. c + 1 \<le> j \<and> j < k \<longrightarrow> v (numberedPath d n j) \<noteq> None"
      using Suc.prems(3) by simp
  qed
  with Suc.prems(2) show ?case
    by (simp add: probe.simps [of v d n cur])
qed

text \<open>
  Claim C7. When \<open><dir>/<name>.md\<close> exists and the user chooses the numbered copy, the
  handler probes \<open><name> 1.md\<close>, \<open><name> 2.md\<close>, \<dots> in increasing order and creates
  the note at the first probed path that does not exist: for every vault in which the
  proposed path exists and \<open>k \<ge> 1\<close> is the smallest number whose path is unused, the
  loop ends, the note is created at \<open><name> k.md\<close> with the text, and that path is the
  final path (and the target of the link).
\<close>

theorem handleChoice_numbered:
  assumes "v (notePath d n) \<noteq> None"
    and "1 \<le> k"
    and "v (numberedPath d n k) = None"
    and "\<forall>j. 1 \<le> j \<and> j < k \<longrightarrow> v (numberedPath d n j) \<noteq> None"
  shows "handleChoice New v d n fullText sel =
           Some (Saved (v(numberedPath d n k \<mapsto> fullText)) (numberedPath d n k)
                   (wikiLink (numberedPath d n k) sel))"
proof -
  have "probe v d n (notePath d n) 1 = Some (numberedPath d n k)"
    using assms(3) assms(2) assms(1) assms(4) by (rule probe_from)
  then show ?thesis
    by (simp add: handleChoice_def)
qed

lemma decimal_1: "decimal 1 = js ''1''"
  by (simp add: decimal.simps digit_def js_def)

lemma decimal_2: "decimal 2 = js ''2''"
  by (simp add: decimal.simps digit_def js_def)

theorem handleChoice_numbered_witness:
  "[js ''notes/Topic.md'' \<mapsto> js ''a'', js ''notes/Topic 1.md'' \<mapsto> js ''b'']
     (notePath (js ''notes'') (js ''Topic'')) \<noteq> None \<and>
   [js ''notes/Topic.md'' \<mapsto> js ''a'', js ''notes/Topic 1.md'' \<mapsto> js ''b'']
     (numberedPath (js ''notes'') (js ''Topic'') 1) \<noteq> None \<and>
   [js ''notes/Topic.md'' \<mapsto> js ''a'', js ''notes/Topic 1.md'' \<mapsto> js ''b'']
     (numberedPath (js ''notes'') (js ''Topic'') 2) = None \<and>
   numberedPath (js ''notes'') (js ''Topic'') 2 = js ''notes/Topic 2.md'' \<and>
   handleChoice New
     [js ''notes/Topic.md'' \<mapsto> js ''a'', js ''notes/Topic 1.md'' \<mapsto> js ''b'']
     (js ''notes'') (js ''Topic'') (js ''text'') (js ''Topic'') =
   Some (Saved
     [js ''notes/Topic.md'' \<mapsto> js ''a'', js ''notes/Topic 1.md'' \<mapsto> js ''b'',
      js ''notes/Topic 2.md'' \<mapsto> js ''text'']
     (js ''notes/Topic 2.md'') (js ''[[notes/Topic 2|Topic]]''))"
proof -
  let ?v = "[js ''notes/Topic.md'' \<mapsto> js ''a'', js ''notes/Topic 1.md'' \<mapsto> js ''b'']"
  have p0: "notePath (js ''notes'') (js ''Topic'') = js ''notes/Topic.md''"
    by (simp add: notePath_def js_def)
  have p1: "numberedPath (js ''notes'') (js ''Topic'') 1 = js ''notes/Topic 1.md''"
    unfolding numberedPath_def decimal_1 by (simp add: js_def)
  have p2: "numberedPath (js ''notes'') (js ''Topic'') 2 = js ''notes/Topic 2.md''"
    unfolding numberedPath_def decimal_2 by (simp add: js_def)
  have h1: "?v (notePath (js ''notes'') (js ''Topic'')) \<noteq> None"
    unfolding p0 by simp
  have h2: "(1::nat) \<le> 2" by simp
  have h3: "?v (numberedPath (js ''notes'') (js ''Topic'') 2) = None"
    unfolding p2 by (simp add: js_def)
  have e1: "?v (numberedPath (js ''notes'') (js ''Topic'') 1) \<noteq> None"
    unfolding p1 by simp
  have h4: "\<forall>j. 1 \<le> j \<and> j < 2 \<longrightarrow> ?v (numberedPath (js ''notes'') (js ''Topic'') j) \<noteq> None"
  proof (intro allI impI)
    fix j :: nat assume "1 \<le> j \<and> j < 2"
    then have "j = 1" by simp
    with e1 show "?v (numberedPath (js ''notes'') (js ''Topic'') j) \<noteq> None" by simp
  qed
  have w: "wikiLink (js ''notes/Topic 2.md'') (js ''Topic'') = js ''[[notes/Topic 2|Topic]]''"
    by (simp add: wikiLink_def linkName_def endsWith_def js_def)
  from handleChoice_numbered [OF h1 h2 h3 h4, of "js ''text''" "js ''Topic''"]
  have "handleChoice New ?v (js ''notes'') (js ''Topic'') (js ''text'') (js ''Topic'') =
          Some (Saved (?v(js ''notes/Topic 2.md'' \<mapsto> js ''text'')) (js ''notes/Topic 2.md'')
                  (js ''[[notes/Topic 2|Topic]]''))"
    unfolding p2 w .
  with h1 e1 h3 p2 show ?thesis by simp
qed


section \<open>Properties of the streaming metrics\<close>

lemma on_chunk_startTime: "startTime (on_chunk s c) = startTime s"
  by (simp add: on_chunk_def Let_def split: option.splits prod.splits)

lemma stream_startTime: "startTime (stream s cs) = startTime s"
  unfolding stream_def by (induction cs arbitrary: s) (simp_all add: on_chunk_startTime)

lemma on_chunk_no_content:
  "content c = None \<or> content c = Some [] \<Longrightarrow> firstTokenTime (on_chunk s c) = firstTokenTime s"
  by (auto simp: on_chunk_def Let_def split: option.splits prod.splits)

lemma stream_no_content:
  "\<forall>c \<in> set cs. content c = None \<or> content c = Some [] \<Longrightarrow>
   firstTokenTime (stream s cs) = firstTokenTime s"
  unfolding stream_def
  by (induction cs arbitrary: s) (simp_all add: on_chunk_no_content)

lemma round_double_not_NaN: "round_double q \<noteq> NaN"
  by (simp add: round_double_def)

lemma overflow_bound: "17280000000000 < pow2 1024 - pow2 970"
  by (simp add: pow2_def)

lemma elapsed_seconds_finite:
  assumes "\<bar>d\<bar> \<le> 17280000000000000"
  shows "\<exists>r. elapsed_seconds d = Finite r"
proof (cases "d = 0")
  case True
  then show ?thesis by (simp add: elapsed_seconds_def round_double_def)
next
  case False
  have h: "(of_int \<bar>d\<bar> :: rat) \<le> 17280000000000000"
    using assms by simp
  have "\<bar>(of_int d :: rat) / 1000\<bar> = of_int \<bar>d\<bar> / 1000"
    by simp
  also have "\<dots> \<le> 17280000000000"
    using h by simp
  finally have "\<bar>(of_int d :: rat) / 1000\<bar> < pow2 1024 - pow2 970"
    using overflow_bound by linarith
  with False show ?thesis
    by (simp add: elapsed_seconds_def round_double_def)
qed

lemma js_divide_positive_not_NaN:
  "js_positive x \<Longrightarrow> js_divide x (Finite y) \<noteq> NaN"
  by (cases x) (simp_all add: round_double_not_NaN)

text \<open>
  Claim C8, as the code has it. After the stream, the tokens-per-second is computed, and
  shown, only when the completion token count is positive: it is then the quotient of
  the count by the elapsed seconds, an IEEE division, rendered by \<open>toFixed(2)\<close>; for
  clock readings in the range of \<open>Date.now()\<close> (at most \<open>8.64e15\<close> in magnitude, so a
  duration of at most \<open>1.728e16\<close>) that quotient is never \<open>NaN\<close>. When the count is zero
  (or is not positive) no division is performed, the text is the literal \<open>0.00\<close>, and
  the timing line shows no speed. The time to the first token is zero when no chunk
  carried content.
\<close>

theorem stream_metrics:
  "(\<not> js_positive (completionTokens (stream (new_session t0) cs)) \<longrightarrow>
      tps (finish (stream (new_session t0) cs) t1) = Literal (js ''0.00'') \<and>
      speedInfo (finish (stream (new_session t0) cs) t1) = None) \<and>
   (js_positive (completionTokens (stream (new_session t0) cs)) \<longrightarrow>
      tps (finish (stream (new_session t0) cs) t1) =
        ToFixed2 (js_divide (completionTokens (stream (new_session t0) cs))
                    (js_divide (Finite (of_int (t1 - t0))) (Finite 1000))) \<and>
      speedInfo (finish (stream (new_session t0) cs) t1) =
        Some (tps (finish (stream (new_session t0) cs) t1))) \<and>
   (js_positive (completionTokens (stream (new_session t0) cs)) \<and>
    \<bar>t1 - t0\<bar> \<le> 17280000000000000 \<longrightarrow>
      tps (finish (stream (new_session t0) cs) t1) \<noteq> ToFixed2 NaN) \<and>
   ((\<forall>c \<in> set cs. content c = None \<or> content c = Some []) \<longrightarrow>
      ttft (finish (stream (new_session t0) cs) t1) = 0)"
proof -
  let ?s = "stream (new_session t0) cs"
  have st: "startTime ?s = t0"
    by (simp add: stream_startTime new_session_def)
  have a: "\<not> js_positive (completionTokens ?s) \<Longrightarrow>
      tps (finish ?s t1) = Literal (js ''0.00'') \<and> speedInfo (finish ?s t1) = None"
    by (simp add: finish_def Let_def)
  have b: "js_positive (completionTokens ?s) \<Longrightarrow>
      tps (finish ?s t1) =
        ToFixed2 (js_divide (completionTokens ?s)
                    (js_divide (Finite (of_int (t1 - t0))) (Finite 1000))) \<and>
      speedInfo (finish ?s t1) = Some (tps (finish ?s t1))"
    by (simp add: finish_def Let_def st elapsed_seconds_def)
  have c: "tps (finish ?s t1) \<noteq> ToFixed2 NaN"
    if p: "js_positive (completionTokens ?s)" and d: "\<bar>t1 - t0\<bar> \<le> 17280000000000000"
  proof -
    from elapsed_seconds_finite [OF d] obtain r where "elapsed_seconds (t1 - t0) = Finite r" ..
    with p js_divide_positive_not_NaN [OF p, of r] show ?thesis
      by (simp add: finish_def Let_def st)
  qed
  have d: "ttft (finish ?s t1) = 0"
    if "\<forall>c \<in> set cs. content c = None \<or> content c = Some []"
  proof -
    from that have "firstTokenTime ?s = None"
      by (simp add: stream_no_content new_session_def)
    then show ?thesis by (simp add: finish_def Let_def)
  qed
  from a b c d show ?thesis by blast
qed

lemma round_double_half: "round_double (1 / 2) = Finite (1 / 2)"
  by (simp add: round_double_def nearest_double_def round_half_even_def exponent_def pow2_def
      blen.simps Let_def)

lemma round_double_4: "round_double 4 = Finite 4"
  by (simp add: round_double_def nearest_double_def round_half_even_def exponent_def pow2_def
      blen.simps Let_def)

theorem stream_metrics_witness:
  "js_positive (completionTokens (stream (new_session 1000)
         [\<lparr>content = Some (js ''Hel''), usage = None, now = 1400\<rparr>,
          \<lparr>content = Some (js ''lo''), usage = None, now = 1450\<rparr>,
          \<lparr>content = None, usage = Some (Finite 10, Finite 2), now = 1500\<rparr>])) \<and>
   \<bar>1500 - 1000 :: int\<bar> \<le> 17280000000000000 \<and>
   tps (finish (stream (new_session 1000)
         [\<lparr>content = Some (js ''Hel''), usage = None, now = 1400\<rparr>,
          \<lparr>content = Some (js ''lo''), usage = None, now = 1450\<rparr>,
          \<lparr>content = None, usage = Some (Finite 10, Finite 2), now = 1500\<rparr>]) 1500)
     = ToFixed2 (Finite 4) \<and>
   ttft (finish (stream (new_session 1000)
         [\<lparr>content = Some (js ''Hel''), usage = None, now = 1400\<rparr>,
          \<lparr>content = Some (js ''lo''), usage = None, now = 1450\<rparr>,
          \<lparr>content = None, usage = Some (Finite 10, Finite 2), now = 1500\<rparr>]) 1500) = 400 \<and>
   \<not> js_positive (completionTokens
        (stream (new_session 1000) [\<lparr>content = None, usage = None, now = 1200\<rparr>])) \<and>
   list_all (\<lambda>c. content c = None) [\<lparr>content = None, usage = None, now = 1200\<rparr>] \<and>
   tps (finish (stream (new_session 1000) [\<lparr>content = None, usage = None, now = 1200\<rparr>]) 1300)
     = Literal (js ''0.00'') \<and>
   speedInfo (finish (stream (new_session 1000) [\<lparr>content = None, usage = None, now = 1200\<rparr>])
     1300) = None \<and>
   ttft (finish (stream (new_session 1000) [\<lparr>content = None, usage = None, now = 1200\<rparr>]) 1300) = 0"
proof -
  let ?cs = "[\<lparr>content = Some (js ''Hel''), usage = None, now = 1400\<rparr>,
          \<lparr>content = Some (js ''lo''), usage = None, now = 1450\<rparr>,
          \<lparr>content = None, usage = Some (Finite 10, Finite 2), now = 1500\<rparr>]"
  let ?ds = "[\<lparr>content = None, usage = None, now = 1200\<rparr>]"
  have s1: "stream (new_session 1000) ?cs =
      \<lparr>rollingText = js ''Hello'', promptTokens = Finite 10, completionTokens = Finite 2,
       startTime = 1000, firstTokenTime = Some 1400\<rparr>"
    by (simp add: stream_def on_chunk_def new_session_def js_def)
  have s2: "stream (new_session 1000) ?ds = new_session 1000"
    by (simp add: stream_def on_chunk_def)
  have p1: "js_positive (completionTokens (stream (new_session 1000) ?cs))"
    unfolding s1 by simp
  have q: "js_divide (Finite 2) (js_divide (Finite (of_int (1500 - 1000))) (Finite 1000)) = Finite 4"
    by (simp add: round_double_half round_double_4)
  have t1: "ttft (finish (stream (new_session 1000) ?cs) 1500) = 400"
    unfolding s1 by (simp add: finish_def)
  have p2: "\<not> js_positive (completionTokens (stream (new_session 1000) ?ds))"
    unfolding s2 by (simp add: new_session_def)
  have e: "\<forall>c \<in> set ?ds. content c = None \<or> content c = Some []"
    by simp
  from stream_metrics [of 1000 ?cs 1500] p1
  have a: "tps (finish (stream (new_session 1000) ?cs) 1500) =
      ToFixed2 (js_divide (completionTokens (stream (new_session 1000) ?cs))
        (js_divide (Finite (of_int (1500 - 1000))) (Finite 1000)))"
    by blast
  have a': "tps (finish (stream (new_session 1000) ?cs) 1500) = ToFixed2 (Finite 4)"
    using a q unfolding s1 by simp
  from stream_metrics [of 1000 ?ds 1300] p2 e
  have b: "tps (finish (stream (new_session 1000) ?ds) 1300) = Literal (js ''0.00'') \<and>
      speedInfo (finish (stream (new_session 1000) ?ds) 1300) = None \<and>
      ttft (finish (stream (new_session 1000) ?ds) 1300) = 0"
    by blast
  from p1 a' t1 p2 b show ?thesis by simp
qed

text \<open>
  The division is not guarded against an elapsed time of zero: a stream whose end has
  the clock value of its start, with a positive completion token count, divides by zero,
  and the quotient, which the timing line shows, is \<open>Infinity\<close>.
\<close>

theorem tps_infinite_at_zero_duration:
  "js_positive (completionTokens (stream (new_session 1000)
         [\<lparr>content = Some (js ''Hi''), usage = Some (Finite 10, Finite 2), now = 1000\<rparr>])) \<and>
   tps (finish (stream (new_session 1000)
         [\<lparr>content = Some (js ''Hi''), usage = Some (Finite 10, Finite 2), now = 1000\<rparr>]) 1000)
     = ToFixed2 PosInfinity \<and>
   speedInfo (finish (stream (new_session 1000)
         [\<lparr>content = Some (js ''Hi''), usage = Some (Finite 10, Finite 2), now = 1000\<rparr>]) 1000)
     = Some (ToFixed2 PosInfinity)"
  by (simp add: stream_def on_chunk_def new_session_def finish_def elapsed_seconds_def
      round_double_def Let_def)


section \<open>Properties of the model cache\<close>

lemma fetch_begin_hit:
  "modelCache' p = Some ms \<Longrightarrow> fetch_begin modelCache' p k b = Done (Inr ms)"
  by (simp add: fetch_begin_def)

lemma store_other: "q \<noteq> p \<Longrightarrow> store c q r p = c p"
  by (simp add: store_def split: sum.splits)

lemma store_keeps: "\<exists>l. c p = Some l \<Longrightarrow> \<exists>l. store c q r p = Some l"
  by (auto simp: store_def split: sum.splits)

lemma exec_keeps_entry:
  assumes "\<exists>l. modelCache s p = Some l"
  shows "\<exists>l. modelCache (exec h s e) p = Some l"
proof (cases e)
  case (Open q k b)
  show ?thesis
  proof (cases "fetch_begin (modelCache s) q k b")
    case (Done r)
    with Open assms store_keeps [of "modelCache s" p q r] show ?thesis by simp
  next
    case (Await req)
    with Open assms show ?thesis by simp
  qed
next
  case (Response i r)
  show ?thesis
  proof (cases "i < length (in_flight s)")
    case True
    with Response assms
      store_keeps [of "modelCache s" p "fst (in_flight s ! i)"
        "fetch_resume h (fst (in_flight s ! i)) r"]
    show ?thesis by simp
  next
    case False
    with Response assms show ?thesis by simp
  qed
qed

lemma run_keeps_entry:
  "\<exists>l. modelCache s p = Some l \<Longrightarrow> \<exists>l. modelCache (run h s evs) p = Some l"
  unfolding run_def
proof (induction evs arbitrary: s)
  case Nil
  then show ?case by simp
next
  case (Cons e evs)
  from Cons.prems have "\<exists>l. modelCache (exec h s e) p = Some l"
    by (rule exec_keeps_entry)
  then have "\<exists>l. modelCache (foldl (exec h) (exec h s e) evs) p = Some l"
    by (rule Cons.IH)
  then show ?case by simp
qed

lemma exec_keeps_value:
  assumes "modelCache s p = Some ms" "p \<notin> fst ` set (in_flight s)"
  shows "modelCache (exec h s e) p = Some ms \<and> p \<notin> fst ` set (in_flight (exec h s e))"
proof (cases e)
  case (Open q k b)
  show ?thesis
  proof (cases "q = p")
    case True
    with assms Open show ?thesis
      by (simp add: fetch_begin_hit store_def)
  next
    case False
    with assms Open show ?thesis
      by (auto simp: store_other split: fetch_step.splits)
  qed
next
  case (Response i r)
  show ?thesis
  proof (cases "i < length (in_flight s)")
    case True
    then have "in_flight s ! i \<in> set (in_flight s)" by simp
    with assms(2) have ne: "fst (in_flight s ! i) \<noteq> p" by force
    have "set (take i (in_flight s) @ drop (Suc i) (in_flight s)) \<subseteq> set (in_flight s)"
      using set_take_subset set_drop_subset by fastforce
    with assms ne True Response show ?thesis
      by (auto simp: store_other)
  next
    case False
    with assms Response show ?thesis by simp
  qed
qed

lemma run_keeps_value:
  "modelCache s p = Some ms \<Longrightarrow> p \<notin> fst ` set (in_flight s) \<Longrightarrow>
   modelCache (run h s evs) p = Some ms"
  unfolding run_def
proof (induction evs arbitrary: s)
  case Nil
  then show ?case by simp
next
  case (Cons e evs)
  from exec_keeps_value [OF Cons.prems, of h e] Cons.IH [of "exec h s e"]
  show ?case by simp
qed

text \<open>
  Claim C10. Once the cache holds a list for a provider, a \<open>fetchModelsForProvider\<close>
  call for that provider returns the cached list and sends no request, whatever key and
  base URL it is given. This stays so for the rest of the process: after any sequence of
  later events (modal openings with any arguments, answers of the network to waiting
  calls) the provider still has an entry, which a call returns without a request; no
  event removes an entry. The entry is moreover the very same list, unless a call for
  that provider was already waiting for the network when the list was stored (the only
  write that can replace it).
\<close>

theorem cached_list_returned_without_fetch:
  assumes "modelCache s p = Some ms"
  shows "fetchModelsForProvider h net (modelCache s) p k b = (Inr ms, []) \<and>
         (\<exists>ms'. modelCache (run h s evs) p = Some ms' \<and>
            fetchModelsForProvider h net' (modelCache (run h s evs)) p k' b' = (Inr ms', [])) \<and>
         (p \<notin> fst ` set (in_flight s) \<longrightarrow>
            modelCache (run h s evs) p = Some ms \<and>
            fetchModelsForProvider h net' (modelCache (run h s evs)) p k' b' = (Inr ms, []))"
proof -
  have hit: "fetchModelsForProvider h n c p x y = (Inr l, [])" if "c p = Some l" for n c x y l
    using that by (simp add: fetchModelsForProvider_def fetch_begin_hit)
  from assms have "\<exists>l. modelCache (run h s evs) p = Some l"
    by (intro run_keeps_entry) blast
  then obtain ms' where m: "modelCache (run h s evs) p = Some ms'" by blast
  have a: "\<exists>ms'. modelCache (run h s evs) p = Some ms' \<and>
            fetchModelsForProvider h net' (modelCache (run h s evs)) p k' b' = (Inr ms', [])"
    using m hit [of "modelCache (run h s evs)" ms' net' k' b'] by blast
  have b: "modelCache (run h s evs) p = Some ms \<and>
            fetchModelsForProvider h net' (modelCache (run h s evs)) p k' b' = (Inr ms, [])"
    if "p \<notin> fst ` set (in_flight s)"
    using run_keeps_value [OF assms that, of h evs]
      hit [of "modelCache (run h s evs)" ms net' k' b'] by simp
  from hit [of "modelCache s" ms net k b] assms a b show ?thesis by blast
qed


theorem cached_list_returned_without_fetch_witness:
  "modelCache \<lparr> modelCache = [js ''openai'' \<mapsto> [entry (js ''gpt-4o'')]], in_flight = [] \<rparr>
     (js ''openai'') = Some [entry (js ''gpt-4o'')] \<and>
   js ''openai'' \<notin> fst ` set (in_flight
     \<lparr> modelCache = [js ''openai'' \<mapsto> [entry (js ''gpt-4o'')]], in_flight = [] \<rparr>) \<and>
   modelCache (run codeunit_host
       \<lparr> modelCache = [js ''openai'' \<mapsto> [entry (js ''gpt-4o'')]], in_flight = [] \<rparr>
       [Open (js ''openai'') (Some (js ''sk-other'')) None,
        Open (js ''openrouter'') None None,
        Response 0 (Inr (JObj []))]) (js ''openrouter'') = Some [] \<and>
   modelCache (run codeunit_host
       \<lparr> modelCache = [js ''openai'' \<mapsto> [entry (js ''gpt-4o'')]], in_flight = [] \<rparr>
       [Open (js ''openai'') (Some (js ''sk-other'')) None,
        Open (js ''openrouter'') None None,
        Response 0 (Inr (JObj []))]) (js ''openai'') = Some [entry (js ''gpt-4o'')] \<and>
   fetchModelsForProvider codeunit_host no_network
     (modelCache (run codeunit_host
       \<lparr> modelCache = [js ''openai'' \<mapsto> [entry (js ''gpt-4o'')]], in_flight = [] \<rparr>
       [Open (js ''openai'') (Some (js ''sk-other'')) None,
        Open (js ''openrouter'') None None,
        Response 0 (Inr (JObj []))]))
     (js ''openai'') (Some (js ''sk-new'')) (Some (js ''http://localhost:1/v1''))
     = (Inr [entry (js ''gpt-4o'')], [])"
proof -
  let ?s = "\<lparr> modelCache = [js ''openai'' \<mapsto> [entry (js ''gpt-4o'')]], in_flight = [] \<rparr>"
  let ?evs = "[Open (js ''openai'') (Some (js ''sk-other'')) None,
        Open (js ''openrouter'') None None,
        Response 0 (Inr (JObj []))]"
  have h1: "modelCache ?s (js ''openai'') = Some [entry (js ''gpt-4o'')]" by simp
  have h2: "js ''openai'' \<notin> fst ` set (in_flight ?s)" by simp
  have ne: "js ''openrouter'' \<noteq> js ''openai''" by (simp add: js_def)
  have r: "modelCache (run codeunit_host ?s ?evs) (js ''openrouter'') = Some []"
    using ne
    by (simp add: run_def fetch_begin_def store_def fetch_resume_def parseOpenRouterModels_def
        top_field_def array_map_def array_sort_def bind_err_def)
  from cached_list_returned_without_fetch [OF h1, of codeunit_host no_network
      "Some (js ''sk-other'')" None ?evs no_network "Some (js ''sk-new'')"
      "Some (js ''http://localhost:1/v1'')"] h2
  have "modelCache (run codeunit_host ?s ?evs) (js ''openai'') = Some [entry (js ''gpt-4o'')] \<and>
        fetchModelsForProvider codeunit_host no_network (modelCache (run codeunit_host ?s ?evs))
          (js ''openai'') (Some (js ''sk-new'')) (Some (js ''http://localhost:1/v1''))
          = (Inr [entry (js ''gpt-4o'')], [])"
    by blast
  with h1 h2 r show ?thesis by blast
qed


end
